theory Spec2Isabelle
  imports Main
begin

section \<open>JavaScript values\<close>

text \<open>
  A plain object whose property values are strings (a \<open>dimensions\<close> mapping) is an
  association list in the order in which \<open>Object.keys\<close> enumerates its own properties.
  Reading a property that the object does not have gives \<open>undefined\<close>, here \<open>None\<close>.
\<close>

type_synonym jsobject = "(string \<times> string) list"

definition Object_keys :: "jsobject \<Rightarrow> string list" where
  "Object_keys obj = map fst obj"

definition get_prop :: "jsobject \<Rightarrow> string \<Rightarrow> string option" where
  "get_prop obj k = map_of obj k"

text \<open>\<open>Array.prototype.join\<close>: an \<open>undefined\<close> element is written as the empty string.\<close>

definition js_str :: "string option \<Rightarrow> string" where
  "js_str x = (case x of None \<Rightarrow> [] | Some s \<Rightarrow> s)"

fun join :: "string option list \<Rightarrow> string \<Rightarrow> string" where
  "join [] sep = []"
| "join [x] sep = js_str x"
| "join (x # y # ys) sep = js_str x @ sep @ join (y # ys) sep"

text \<open>
  \<open>[].concat(x)\<close>: an array argument is spread, any other value becomes the only element.
\<close>

datatype 'a arg = One 'a | Many "'a list"

definition concat_arg :: "'a arg \<Rightarrow> 'a list" where
  "concat_arg x = (case x of One a \<Rightarrow> [a] | Many as \<Rightarrow> as)"

text \<open>
  An error object: its class, its message and the \<open>_logged\<close> property that the driver sets.
\<close>

record jserror =
  err_name :: string
  message :: string
  logged :: bool

definition AssertionError :: "string \<Rightarrow> jserror" where
  "AssertionError msg = \<lparr>err_name = ''AssertionError'', message = msg, logged = False\<rparr>"

definition TypeError :: "string \<Rightarrow> jserror" where
  "TypeError msg = \<lparr>err_name = ''TypeError'', message = msg, logged = False\<rparr>"

text \<open>
  \<open>Array.prototype.reduce\<close> without an initial value: the first element starts the
  accumulator, and an empty array raises a TypeError.
\<close>

definition reduce :: "('a \<Rightarrow> 'a \<Rightarrow> 'a) \<Rightarrow> 'a list \<Rightarrow> jserror + 'a" where
  "reduce f xs = (case xs of
       [] \<Rightarrow> Inl (TypeError ''Reduce of empty array with no initial value'')
     | x # rest \<Rightarrow> Inr (foldl f x rest))"

text \<open>\<open>Array.prototype.map\<close> with a callback that may throw: the first exception ends it.\<close>

fun map_throwing :: "('a \<Rightarrow> jserror + 'b) \<Rightarrow> 'a list \<Rightarrow> jserror + 'b list" where
  "map_throwing f [] = Inr []"
| "map_throwing f (x # xs) = (case f x of
       Inl e \<Rightarrow> Inl e
     | Inr y \<Rightarrow> (case map_throwing f xs of Inl e \<Rightarrow> Inl e | Inr ys \<Rightarrow> Inr (y # ys)))"

text \<open>
  A \<open>Map\<close> keeps its entries in the order in which their keys were first set: \<open>set\<close> on a
  key that is present replaces the value where it stands, \<open>set\<close> on a new key appends.
\<close>

type_synonym ('k, 'v) jsmap = "('k \<times> 'v) list"

definition Map_get :: "('k, 'v) jsmap \<Rightarrow> 'k \<Rightarrow> 'v option" where
  "Map_get m k = map_of m k"

fun Map_set :: "('k, 'v) jsmap \<Rightarrow> 'k \<Rightarrow> 'v \<Rightarrow> ('k, 'v) jsmap" where
  "Map_set [] k v = [(k, v)]"
| "Map_set ((k', v') # m) k v = (if k' = k then (k, v) # m else (k', v') # Map_set m k v)"

definition Map_values :: "('k, 'v) jsmap \<Rightarrow> 'v list" where
  "Map_values m = map snd m"


section \<open>Metric data\<close>

text \<open>
  A metric as callers hand it over (\<open>val\<close> is the property \<open>value\<close>). \<open>dimensions\<close>,
  \<open>unit\<close> and \<open>timestamp\<close> may be absent; a timestamp is a \<open>Date\<close>, given by its epoch
  milliseconds. The collector keeps metrics whose \<open>val\<close> is the array of the values merged
  so far.
\<close>

record 'v metricData =
  name :: string
  dimensions :: "jsobject option"
  val :: 'v
  unit :: "string option"
  timestamp :: "nat option"

text \<open>
  What the driver reads in \<open>rawMetric.value\<close>: an array (\<open>Samples\<close>, what \<open>Array.isArray\<close>
  accepts), or a value that is not an array (\<open>Scalar\<close>). The type \<open>'n\<close> is that of the
  values themselves: the numbers of JavaScript, which are IEEE doubles, or whatever else a
  caller has passed as a value.
\<close>

datatype 'n rawValue = Scalar 'n | Samples "'n list"

text \<open>
  The operations of the language that the driver applies to two values: \<open>Math.max\<close>,
  \<open>Math.min\<close> and \<open>+\<close>. They are parameters, so that nothing is assumed of them: on
  doubles \<open>+\<close> rounds, and \<open>Math.max\<close> and \<open>Math.min\<close> give \<open>NaN\<close> when an argument is
  not a number.
\<close>

record 'n arithmetic =
  Math_max :: "'n \<Rightarrow> 'n \<Rightarrow> 'n"
  Math_min :: "'n \<Rightarrow> 'n \<Rightarrow> 'n"
  Number_add :: "'n \<Rightarrow> 'n \<Rightarrow> 'n"

text \<open>The wire format of \<open>putMetricData\<close>.\<close>

record 'n statisticValues =
  Maximum :: 'n
  Minimum :: 'n
  SampleCount :: nat
  Sum :: 'n

record dimension =
  Name :: string
  Value :: "string option"

record 'n metricDatum =
  MetricName :: string
  Dimensions :: "dimension list"
  Timestamp :: "nat option"
  StatisticValues :: "'n statisticValues option"
  DatumValue :: "'n option"
  Unit :: "string option"

record 'n putMetricDataInput =
  Namespace :: string
  MetricData :: "'n metricDatum list"

text \<open>
  What an operation does to the outside, in the order in which it does it: the logger's
  \<open>debug\<close> and \<open>error\<close> calls, the client's \<open>putMetricData\<close> calls, and the clearing
  of the collector's map.
\<close>

datatype 'n event =
    LoggerDebug "'n putMetricDataInput"
  | PutMetricData "'n putMetricDataInput"
  | LoggerError jserror "'n putMetricDataInput"
  | MetricsCleared


section \<open>CloudWatchDriver\<close>

definition METRIC_COUNT_LIMIT :: nat where
  "METRIC_COUNT_LIMIT = 20"

text \<open>
  The driver's own fields. Of the logger only the presence of a \<open>debug\<close> method matters.
  The client is not a field here: its \<open>putMetricData\<close> is a parameter of \<open>sendMetrics\<close>,
  a function from the client's state and the request to the rejection reason (\<open>None\<close>
  when the request is fulfilled) and the client's next state.
\<close>

record CloudWatchDriver =
  serviceNamespace :: string
  logger_has_debug :: bool

type_synonym ('c, 'n) client = "'c \<Rightarrow> 'n putMetricDataInput \<Rightarrow> jserror option \<times> 'c"

record driverOptions =
  opt_serviceNamespace :: "string option"
  opt_logger_has_debug :: "bool option"

text \<open>The default logger is \<open>console\<close>, which has a \<open>debug\<close> method.\<close>

definition new_CloudWatchDriver :: "driverOptions \<Rightarrow> jserror + CloudWatchDriver" where
  "new_CloudWatchDriver options = (case opt_serviceNamespace options of
       None \<Rightarrow> Inl (AssertionError ''serviceNamespace is required'')
     | Some ns \<Rightarrow>
         if ns = [] then Inl (AssertionError ''serviceNamespace is required'')
         else Inr \<lparr>serviceNamespace = ns,
                   logger_has_debug = (case opt_logger_has_debug options of
                                          None \<Rightarrow> True | Some b \<Rightarrow> b)\<rparr>)"

text \<open>
  Modelled from the spec: the \<open>chunk\<close> package is not part of the sources. It partitions
  the sequence into consecutive chunks of at most \<open>n\<close> elements each, in the original
  order across and within chunks.
\<close>

function chunk :: "'a list \<Rightarrow> nat \<Rightarrow> 'a list list" where
  "chunk xs n = (if n = 0 \<or> xs = [] then [] else take n xs # chunk (drop n xs) n)"
  by pat_completeness auto
termination
  by (relation "measure (\<lambda>(xs, n). length xs)") auto

declare chunk.simps [simp del]

text \<open>
  The callback that turns one raw metric into one entry of the request; \<open>ops\<close> are the
  operations of the language on the values.
\<close>

definition toMetricDatum :: "'n arithmetic \<Rightarrow> 'n rawValue metricData \<Rightarrow> jserror + 'n metricDatum" where
  "toMetricDatum ops rawMetric =
     (let dims = (case dimensions rawMetric of None \<Rightarrow> [] | Some d \<Rightarrow> d);
          result = \<lparr>MetricName = name rawMetric,
                    Dimensions = map (\<lambda>k. \<lparr>Name = k, Value = get_prop dims k\<rparr>) (Object_keys dims),
                    Timestamp = None, StatisticValues = None, DatumValue = None, Unit = None\<rparr>;
          result = (case timestamp rawMetric of
                      None \<Rightarrow> result
                    | Some t \<Rightarrow> result\<lparr>Timestamp := Some t\<rparr>);
          withUnit = (\<lambda>r. case unit rawMetric of
                      None \<Rightarrow> r
                    | Some u \<Rightarrow> if u = [] then r else r\<lparr>Unit := Some u\<rparr>)
      in case val rawMetric of
           Samples vs \<Rightarrow>
             (case reduce (Math_max ops) vs of
                Inl e \<Rightarrow> Inl e
              | Inr mx \<Rightarrow>
                 (case reduce (Math_min ops) vs of
                    Inl e \<Rightarrow> Inl e
                  | Inr mn \<Rightarrow>
                     (case reduce (Number_add ops) vs of
                        Inl e \<Rightarrow> Inl e
                      | Inr sm \<Rightarrow>
                         Inr (withUnit (result\<lparr>StatisticValues :=
                                Some \<lparr>Maximum = mx, Minimum = mn,
                                      SampleCount = length vs, Sum = sm\<rparr>\<rparr>)))))
         | Scalar v \<Rightarrow> Inr (withUnit (result\<lparr>DatumValue := Some v\<rparr>)))"

text \<open>The object \<open>metrics\<close> that is handed to the client for one chunk.\<close>

definition request :: "CloudWatchDriver \<Rightarrow> 'n metricDatum list \<Rightarrow> 'n putMetricDataInput" where
  "request this metricsData = \<lparr>Namespace = serviceNamespace this, MetricData = metricsData\<rparr>"

text \<open>
  The callback of \<open>BPromise.map\<close>: it builds the request of one chunk, logs it at debug
  level when the logger can, and calls the client. When the client rejects, the error is
  logged with the request, tagged \<open>_logged\<close>, and thrown again. An exception while the
  entries are built rejects the callback's promise before anything is logged or sent.
  The result is the rejection reason (\<open>None\<close> when fulfilled), the client's next state and
  the events in order.
\<close>

definition sendBatch ::
  "'n arithmetic \<Rightarrow> CloudWatchDriver \<Rightarrow> ('c, 'n) client \<Rightarrow> 'c \<Rightarrow> 'n rawValue metricData list
     \<Rightarrow> jserror option \<times> 'c \<times> 'n event list" where
  "sendBatch ops this putMetricData c metricsBatch =
     (case map_throwing (toMetricDatum ops) metricsBatch of
        Inl e \<Rightarrow> (Some e, c, [])
      | Inr metricsData \<Rightarrow>
         (let metrics = request this metricsData;
              dbg = (if logger_has_debug this then [LoggerDebug metrics] else [])
          in case putMetricData c metrics of
               (None, c') \<Rightarrow> (None, c', dbg @ [PutMetricData metrics])
             | (Some err, c') \<Rightarrow>
                 (Some (err\<lparr>logged := True\<rparr>), c',
                  dbg @ [PutMetricData metrics, LoggerError err metrics])))"

text \<open>
  Modelled from the spec: bluebird's \<open>map\<close> is not part of the sources. With
  \<open>concurrency: 1\<close> the chunks are handled in strict sequence, chunk \<open>i + 1\<close> not begun
  before the call of chunk \<open>i\<close> has settled, and the first rejection is the result, the
  chunks after it never begun.
\<close>

fun BPromise_map ::
  "('c \<Rightarrow> 'a \<Rightarrow> jserror option \<times> 'c \<times> 'n event list) \<Rightarrow> 'a list \<Rightarrow> 'c
     \<Rightarrow> jserror option \<times> 'c \<times> 'n event list" where
  "BPromise_map f [] c = (None, c, [])"
| "BPromise_map f (x # xs) c = (case f c x of
       (Some e, c', evs) \<Rightarrow> (Some e, c', evs)
     | (None, c', evs) \<Rightarrow>
         (case BPromise_map f xs c' of (r, c'', evs') \<Rightarrow> (r, c'', evs @ evs')))"

definition sendMetrics ::
  "'n arithmetic \<Rightarrow> CloudWatchDriver \<Rightarrow> ('c, 'n) client \<Rightarrow> 'c \<Rightarrow> 'n rawValue metricData arg
     \<Rightarrow> jserror option \<times> 'c \<times> 'n event list" where
  "sendMetrics ops this putMetricData c rawMetrics =
     BPromise_map (sendBatch ops this putMetricData)
       (chunk (concat_arg rawMetrics) METRIC_COUNT_LIMIT) c"

text \<open>
  Modelled from the spec: bluebird's \<open>map\<close> is not part of the sources, and the source
  does not say in which order it begins the chunks. \<open>sendMetrics_in\<close> is \<open>sendMetrics\<close>
  with that order as a parameter: the chunks are handled one at a time, the first
  rejection being the result, in the order of their indices in \<open>order\<close> (an index that is
  not that of a chunk is left out). With the indices in their own order it is
  \<open>sendMetrics\<close>.
\<close>

definition sendMetrics_in ::
  "nat list \<Rightarrow> 'n arithmetic \<Rightarrow> CloudWatchDriver \<Rightarrow> ('c, 'n) client \<Rightarrow> 'c
     \<Rightarrow> 'n rawValue metricData arg \<Rightarrow> jserror option \<times> 'c \<times> 'n event list" where
  "sendMetrics_in order ops this putMetricData c rawMetrics =
     (let chunks = chunk (concat_arg rawMetrics) METRIC_COUNT_LIMIT
      in BPromise_map (sendBatch ops this putMetricData)
           (map (\<lambda>i. chunks ! i) (filter (\<lambda>i. i < length chunks) order)) c)"


section \<open>MetricCollector\<close>

definition DEFAULT_FLUSH_FREQUENCY :: nat where
  "DEFAULT_FLUSH_FREQUENCY = 20000"

text \<open>
  \<open>metrics\<close> is the field \<open>_metrics\<close>, \<open>stopped\<close> is \<open>_stopped\<close>, and \<open>flushTimer\<close> is the
  timer that is armed, with its delay, or \<open>None\<close> when none is.
\<close>

record 'v MetricCollector =
  cloudwatchDriver :: CloudWatchDriver
  auto :: bool
  flushFrequency :: nat
  metrics :: "(string, 'v list metricData) jsmap"
  stopped :: bool
  flushTimer :: "nat option"

record collectorOptions = driverOptions +
  opt_auto :: "bool option"
  opt_flushFrequency :: "nat option"

definition setupFlushTimer :: "'v MetricCollector \<Rightarrow> 'v MetricCollector" where
  "setupFlushTimer this = this\<lparr>flushTimer := Some (flushFrequency this)\<rparr>"

definition new_MetricCollector :: "collectorOptions \<Rightarrow> jserror + 'v MetricCollector" where
  "new_MetricCollector options =
     (if opt_serviceNamespace options = None \<or> opt_serviceNamespace options = Some []
      then Inl (AssertionError ''missing options.serviceNamespace'')
      else case new_CloudWatchDriver
                  \<lparr>opt_serviceNamespace = opt_serviceNamespace options,
                   opt_logger_has_debug = opt_logger_has_debug options\<rparr> of
             Inl e \<Rightarrow> Inl e
           | Inr driver \<Rightarrow>
              (let a = (case opt_auto options of None \<Rightarrow> False | Some b \<Rightarrow> b);
                   this = \<lparr>cloudwatchDriver = driver,
                           auto = a,
                           flushFrequency = (case opt_flushFrequency options of
                                               None \<Rightarrow> DEFAULT_FLUSH_FREQUENCY
                                             | Some n \<Rightarrow> if n = 0 then DEFAULT_FLUSH_FREQUENCY else n),
                           metrics = [],
                           stopped = \<not> a,
                           flushTimer = None\<rparr>
               in Inr (if a then setupFlushTimer this else this)))"

text \<open>
  \<open>Object.keys(d).map(k => d[k])\<close>: the dimension values, in the order in which the
  mapping is traversed.
\<close>

definition dimensionValues :: "jsobject \<Rightarrow> string option list" where
  "dimensionValues d = map (get_prop d) (Object_keys d)"

text \<open>\<open>Object.keys(undefined)\<close> raises a TypeError.\<close>

definition getMetricKey :: "'v metricData \<Rightarrow> jserror + string" where
  "getMetricKey metricData = (case dimensions metricData of
       None \<Rightarrow> Inl (TypeError ''Cannot convert undefined or null to object'')
     | Some d \<Rightarrow> Inr (name metricData @ '':'' @ join (dimensionValues d) '':''))"

text \<open>\<open>Object.assign({}, metricData, { value: [metricData.value] })\<close>.\<close>

definition assign_value :: "'v metricData \<Rightarrow> 'v list metricData" where
  "assign_value metricData =
     \<lparr>name = name metricData, dimensions = dimensions metricData, val = [val metricData],
      unit = unit metricData, timestamp = timestamp metricData\<rparr>"

text \<open>
  The body of the \<open>forEach\<close> in \<open>addMetrics\<close>. \<open>metric.value.push\<close> changes the metric
  that the map holds, where it stands.
\<close>

definition addMetric :: "'v metricData \<Rightarrow> 'v MetricCollector \<Rightarrow> jserror + 'v MetricCollector" where
  "addMetric metricData this = (case getMetricKey metricData of
       Inl e \<Rightarrow> Inl e
     | Inr key \<Rightarrow>
        (case Map_get (metrics this) key of
           Some metric \<Rightarrow>
             Inr (this\<lparr>metrics := Map_set (metrics this) key
                                    (metric\<lparr>val := val metric @ [val metricData]\<rparr>)\<rparr>)
         | None \<Rightarrow>
             Inr (this\<lparr>metrics := Map_set (metrics this) key (assign_value metricData)\<rparr>)))"

text \<open>
  An exception in the middle of the \<open>forEach\<close> leaves what the earlier elements have
  done: the result is the exception, if any, and the collector as it then is.
\<close>

fun forEach_addMetric ::
  "'v metricData list \<Rightarrow> 'v MetricCollector \<Rightarrow> jserror option \<times> 'v MetricCollector" where
  "forEach_addMetric [] this = (None, this)"
| "forEach_addMetric (m # ms) this = (case addMetric m this of
       Inl e \<Rightarrow> (Some e, this)
     | Inr this' \<Rightarrow> forEach_addMetric ms this')"

text \<open>
  The argument is \<open>None\<close> when the caller passes nothing (or \<open>undefined\<close>, \<open>null\<close>): the
  values that \<open>assert\<close> takes as false. An array, also the empty one, is true for it.
\<close>

definition addMetrics ::
  "'v metricData arg option \<Rightarrow> 'v MetricCollector \<Rightarrow> jserror option \<times> 'v MetricCollector" where
  "addMetrics metricsData this = (case metricsData of
       None \<Rightarrow> (Some (AssertionError ''missing metricsData''), this)
     | Some a \<Rightarrow> forEach_addMetric (concat_arg a) this)"

definition getMetrics :: "'v MetricCollector \<Rightarrow> 'v list metricData list" where
  "getMetrics this = Map_values (metrics this)"

definition clearMetrics :: "'v MetricCollector \<Rightarrow> 'v MetricCollector \<times> 'n event list" where
  "clearMetrics this = (this\<lparr>metrics := []\<rparr>, [MetricsCleared])"

text \<open>
  The driver reads the accumulated metric as it is: its \<open>value\<close> is an array.
\<close>

definition as_rawMetric :: "'n list metricData \<Rightarrow> 'n rawValue metricData" where
  "as_rawMetric m =
     \<lparr>name = name m, dimensions = dimensions m, val = Samples (val m),
      unit = unit m, timestamp = timestamp m\<rparr>"

text \<open>
  \<open>flush\<close> and \<open>stop\<close> return the rejection reason of their promise (\<open>None\<close> when it is
  fulfilled), the collector, the client's state and the events in order.
\<close>

definition flush ::
  "'n arithmetic \<Rightarrow> ('c, 'n) client \<Rightarrow> 'c \<Rightarrow> 'n MetricCollector
     \<Rightarrow> jserror option \<times> 'n MetricCollector \<times> 'c \<times> 'n event list" where
  "flush ops putMetricData c this =
     (let metricsData = getMetrics this;
          (this1, evs1) = clearMetrics this;
          this2 = (if auto this1 \<and> \<not> stopped this1 then setupFlushTimer this1 else this1)
      in if length metricsData = 0 then (None, this2, c, evs1)
         else (case sendMetrics ops (cloudwatchDriver this2) putMetricData c
                      (Many (map as_rawMetric metricsData)) of
                 (r, c', evs) \<Rightarrow> (r, this2, c', evs1 @ evs)))"

definition stop ::
  "'n arithmetic \<Rightarrow> ('c, 'n) client \<Rightarrow> 'c \<Rightarrow> 'n MetricCollector
     \<Rightarrow> jserror option \<times> 'n MetricCollector \<times> 'c \<times> 'n event list" where
  "stop ops putMetricData c this =
     (if stopped this then (None, this, c, [])
      else flush ops putMetricData c (this\<lparr>stopped := True, flushTimer := None\<rparr>))"

section \<open>Runs and observations\<close>

text \<open>
  A chain of \<open>addMetrics\<close> calls, each on the collector that the call before has
  returned; an exception ends the chain.
\<close>

fun addMetrics_calls ::
  "'v metricData arg option list \<Rightarrow> 'v MetricCollector
     \<Rightarrow> jserror option \<times> 'v MetricCollector" where
  "addMetrics_calls [] this = (None, this)"
| "addMetrics_calls (a # as) this = (case addMetrics a this of
       (Some e, this') \<Rightarrow> (Some e, this')
     | (None, this') \<Rightarrow> addMetrics_calls as this')"

text \<open>The requests that have reached the client, in the order of the calls.\<close>

fun putCalls :: "'n event list \<Rightarrow> 'n putMetricDataInput list" where
  "putCalls [] = []"
| "putCalls (PutMetricData q # evs) = q # putCalls evs"
| "putCalls (_ # evs) = putCalls evs"

text \<open>The error-level log entries, in order.\<close>

fun errorLogs :: "'n event list \<Rightarrow> (jserror \<times> 'n putMetricDataInput) list" where
  "errorLogs [] = []"
| "errorLogs (LoggerError e q # evs) = (e, q) # errorLogs evs"
| "errorLogs (_ # evs) = errorLogs evs"

text \<open>
  What a client that starts in state \<open>c\<close> answers to a sequence of requests sent one
  after the other.
\<close>

fun answers :: "('c, 'n) client \<Rightarrow> 'c \<Rightarrow> 'n putMetricDataInput list \<Rightarrow> jserror option list" where
  "answers putMetricData c [] = []"
| "answers putMetricData c (q # qs) = (case putMetricData c q of
       (r, c') \<Rightarrow> r # answers putMetricData c' qs)"

text \<open>
  The collector's map is well formed when no key occurs twice and every metric is stored
  under the key that \<open>getMetricKey\<close> computes for it.
\<close>

definition well_formed :: "'v MetricCollector \<Rightarrow> bool" where
  "well_formed this \<longleftrightarrow>
     distinct (map fst (metrics this)) \<and>
     list_all (\<lambda>(k, metric). getMetricKey metric = Inr k) (metrics this)"

text \<open>
  The distinct elements of a list, each at the place of its first occurrence: the order in
  which the keys of a sequence of metrics are first seen.
\<close>

fun first_occurrences :: "'a list \<Rightarrow> 'a list" where
  "first_occurrences [] = []"
| "first_occurrences (x # xs) = x # first_occurrences (filter (\<lambda>y. y \<noteq> x) xs)"

text \<open>
  The fixtures of the test suites: the collector that
  \<open>new MetricCollector({ serviceNamespace: 'test' })\<close> builds, a client that fulfils
  every request, one that rejects every request, and one whose state counts the requests
  it still fulfils before it rejects.
\<close>

text \<open>
  The values of the fixtures are small integers, on which the operations of the language
  are the exact ones.
\<close>

definition integers :: "int arithmetic" where
  "integers = \<lparr>Math_max = max, Math_min = min, Number_add = (+)\<rparr>"

definition test_collector :: "int MetricCollector" where
  "test_collector =
     \<lparr>cloudwatchDriver = \<lparr>serviceNamespace = ''test'', logger_has_debug = True\<rparr>,
      auto = False, flushFrequency = 20000, metrics = [], stopped = True, flushTimer = None\<rparr>"

definition eventCount :: "string \<Rightarrow> 'v \<Rightarrow> 'v metricData" where
  "eventCount eventName v =
     \<lparr>name = ''eventCount'', dimensions = Some [(''eventName'', eventName)], val = v,
      unit = None, timestamp = None\<rparr>"

definition testError :: jserror where
  "testError = \<lparr>err_name = ''Error'', message = ''SQS error'', logged = False\<rparr>"

definition fulfilling :: "(unit, 'n) client" where
  "fulfilling c q = (None, c)"

definition rejecting :: "(unit, 'n) client" where
  "rejecting c q = (Some testError, c)"

definition rejecting_after :: "(nat, 'n) client" where
  "rejecting_after c q = (case c of 0 \<Rightarrow> (Some testError, 0) | Suc n \<Rightarrow> (None, n))"


text \<open>
  A collector in automatic mode that is running, with one metric accumulated and a timer
  armed.
\<close>

definition running_collector :: "int MetricCollector" where
  "running_collector =
     \<lparr>cloudwatchDriver = \<lparr>serviceNamespace = ''test'', logger_has_debug = False\<rparr>,
      auto = True, flushFrequency = 100,
      metrics = [(''eventCount:X'', assign_value (eventCount ''X'' 1))],
      stopped = False, flushTimer = Some 100\<rparr>"


text \<open>
  The same collector holding \<open>N\<close> metrics \<open>eventCount\<close>, the \<open>n\<close>-th with the
  dimension value \<open>x\<close> repeated \<open>n\<close> times and the one sample \<open>n\<close>; and the entry of
  the request that the driver is expected to build for the \<open>n\<close>-th.
\<close>

definition sample :: "nat \<Rightarrow> int list metricData" where
  "sample n = assign_value (eventCount (replicate n (CHR ''x'')) (int n))"

definition collector_with :: "nat \<Rightarrow> int MetricCollector" where
  "collector_with N =
     running_collector\<lparr>metrics :=
       map (\<lambda>n. (''eventCount:'' @ replicate n (CHR ''x''), sample n)) [0..<N]\<rparr>"

definition sample_datum :: "nat \<Rightarrow> int metricDatum" where
  "sample_datum n =
     \<lparr>MetricName = ''eventCount'',
      Dimensions = [\<lparr>Name = ''eventName'', Value = Some (replicate n (CHR ''x''))\<rparr>],
      Timestamp = None,
      StatisticValues = Some \<lparr>Maximum = int n, Minimum = int n, SampleCount = 1, Sum = int n\<rparr>,
      DatumValue = None, Unit = None\<rparr>"


section \<open>Validation at the boundary\<close>

text \<open>
  Claim C7 says that \<open>addMetrics\<close> fails with a validation error on an absent argument
  and on an empty sequence. On the empty array it does not: \<open>assert([])\<close> passes, the
  \<open>forEach\<close> has nothing to do, and the collector is returned as it was.
\<close>

theorem addMetrics_empty_sequence_accepted:
  "addMetrics (Some (Many [])) test_collector = (None, test_collector)"
  by (simp add: addMetrics_def concat_arg_def)

text \<open>
  Claim C7, as amended: \<open>addMetrics\<close> fails with an assertion error, raised before
  anything is done and leaving the collector unchanged, when its argument is absent; an
  empty sequence is accepted and leaves the collector unchanged too; and construction
  fails with an assertion error when \<open>serviceNamespace\<close> is missing or empty.
\<close>

theorem validation_errors:
  "addMetrics None this = (Some (AssertionError ''missing metricsData''), this)
   \<and> addMetrics (Some (Many [])) this = (None, this)
   \<and> (new_MetricCollector (options\<lparr>opt_serviceNamespace := None\<rparr>)
         :: jserror + 'v MetricCollector)
       = Inl (AssertionError ''missing options.serviceNamespace'')
   \<and> (new_MetricCollector (options\<lparr>opt_serviceNamespace := Some []\<rparr>)
         :: jserror + 'v MetricCollector)
       = Inl (AssertionError ''missing options.serviceNamespace'')"
  by (simp add: addMetrics_def concat_arg_def new_MetricCollector_def)

text \<open>
  Claim C8 says that the key is computed, and \<open>addMetrics\<close> succeeds, also for a metric
  without \<open>dimensions\<close>. The collector does not put an empty mapping in their place as
  the driver does: for the driver test's metric without dimensions \<open>Object.keys\<close>
  raises a TypeError, and \<open>addMetrics\<close> with it.
\<close>

theorem addMetrics_without_dimensions_raises:
  "addMetrics (Some (One \<lparr>name = ''metricName'', dimensions = None, val = 12345,
                           unit = None, timestamp = None\<rparr>)) test_collector
   = (Some (TypeError ''Cannot convert undefined or null to object''), test_collector)"
  by (simp add: addMetrics_def concat_arg_def addMetric_def getMetricKey_def)


section \<open>Flushing\<close>

lemma metrics_clear_empty: "metrics this = [] \<Longrightarrow> this\<lparr>metrics := []\<rparr> = this"
  by (cases this) simp

text \<open>
  Claim C4: when the collector's map is empty, \<open>flush\<close> is fulfilled, the client is
  never called and its state is untouched; the only thing done is the clearing of the
  (empty) map and, in automatic mode while running, the arming of the timer.
\<close>

theorem flush_empty:
  "metrics this = [] \<Longrightarrow>
   flush ops putMetricData c this =
     (None, (if auto this \<and> \<not> stopped this then setupFlushTimer this else this),
      c, [MetricsCleared])
   \<and> putCalls (snd (snd (snd (flush ops putMetricData c this)))) = []"
  by (simp add: flush_def getMetrics_def Map_values_def clearMetrics_def metrics_clear_empty)

text \<open>
  On the collector of the tests, with a client that would reject every request.
\<close>

theorem flush_empty_witness:
  "metrics test_collector = [] \<and>
   flush integers rejecting () test_collector = (None, test_collector, (), [MetricsCleared])
   \<and> putCalls (snd (snd (snd (flush integers rejecting () test_collector)))) = []"
  using flush_empty [where this = test_collector and ops = integers
      and putMetricData = rejecting and c = "()"]
  by (simp add: test_collector_def)

text \<open>Nothing that the driver does clears the collector's map.\<close>

lemma sendBatch_no_clear:
  "MetricsCleared \<notin> set (snd (snd (sendBatch ops this putMetricData c metricsBatch)))"
  by (auto simp: sendBatch_def Let_def split: sum.splits prod.splits option.splits)

lemma BPromise_map_no_clear:
  assumes "\<And>c x. MetricsCleared \<notin> set (snd (snd (f c x)))"
  shows "MetricsCleared \<notin> set (snd (snd (BPromise_map f xs c)))"
proof (induction xs arbitrary: c)
  case Nil
  show ?case by simp
next
  case (Cons x xs)
  obtain r c' evs where fx: "f c x = (r, c', evs)" by (cases "f c x") auto
  with assms [of c x] have evs: "MetricsCleared \<notin> set evs" by simp
  show ?case
  proof (cases r)
    case (Some e)
    with fx evs show ?thesis by simp
  next
    case None
    obtain r' c'' evs' where rest: "BPromise_map f xs c' = (r', c'', evs')"
      by (cases "BPromise_map f xs c'") auto
    with Cons.IH [of c'] have "MetricsCleared \<notin> set evs'" by simp
    with fx None rest evs show ?thesis by simp
  qed
qed

lemma sendMetrics_no_clear:
  "MetricsCleared \<notin> set (snd (snd (sendMetrics ops this putMetricData c rawMetrics)))"
  unfolding sendMetrics_def by (rule BPromise_map_no_clear) (rule sendBatch_no_clear)

lemma flush_events:
  "snd (snd (snd (flush ops putMetricData c this))) =
     MetricsCleared # (if metrics this = [] then []
        else snd (snd (sendMetrics ops (cloudwatchDriver this) putMetricData c
                         (Many (map as_rawMetric (getMetrics this))))))"
  by (simp add: flush_def getMetrics_def Map_values_def clearMetrics_def setupFlushTimer_def
      Let_def split: prod.splits)

lemma flush_collector:
  "fst (snd (flush ops putMetricData c this)) =
     (if auto this \<and> \<not> stopped this then setupFlushTimer (this\<lparr>metrics := []\<rparr>)
      else this\<lparr>metrics := []\<rparr>)"
  by (simp add: flush_def getMetrics_def Map_values_def clearMetrics_def Let_def split: prod.splits)

text \<open>
  Claim C5: whatever the collector holds and whatever the client answers, \<open>flush\<close>
  leaves the collector's map empty, also when the flush is rejected (nothing is put
  back), and the clearing is the first thing \<open>flush\<close> does: every call of the client
  comes after it, and it happens once.
\<close>

theorem flush_clears_first:
  "metrics (fst (snd (flush ops putMetricData c this))) = []
   \<and> getMetrics (fst (snd (flush ops putMetricData c this))) = []
   \<and> (\<exists>evs. snd (snd (snd (flush ops putMetricData c this))) = MetricsCleared # evs
            \<and> MetricsCleared \<notin> set evs)"
  using sendMetrics_no_clear [of ops "cloudwatchDriver this" putMetricData c
          "Many (map as_rawMetric (getMetrics this))"]
  by (simp add: flush_collector flush_events setupFlushTimer_def getMetrics_def Map_values_def)


section \<open>Chunks\<close>

lemma chunk_Nil: "chunk [] n = []"
  by (subst chunk.simps) simp

lemma chunk_step: "0 < n \<Longrightarrow> xs \<noteq> [] \<Longrightarrow> chunk xs n = take n xs # chunk (drop n xs) n"
  by (subst chunk.simps) simp

lemma chunk_short:
  assumes "xs \<noteq> []" and "length xs \<le> n"
  shows "chunk xs n = [xs]"
proof -
  from assms have "0 < n" by (cases xs) auto
  then have "chunk xs n = take n xs # chunk (drop n xs) n"
    using assms(1) by (rule chunk_step)
  with assms(2) show ?thesis by (simp add: chunk_Nil)
qed

lemma concat_chunk: "0 < n \<Longrightarrow> concat (chunk xs n) = xs"
proof (induction xs n rule: chunk.induct)
  case (1 xs n)
  show ?case
  proof (cases "xs = []")
    case True
    then show ?thesis by (simp add: chunk_Nil)
  next
    case False
    with 1 have "concat (chunk (drop n xs) n) = drop n xs" by simp
    with False "1.prems" show ?thesis by (simp add: chunk_step [of n xs])
  qed
qed

lemma length_chunk: "0 < n \<Longrightarrow> length (chunk xs n) = (length xs + n - 1) div n"
proof (induction xs n rule: chunk.induct)
  case (1 xs n)
  show ?case
  proof (cases "xs = []")
    case True
    with "1.prems" show ?thesis by (simp add: chunk_Nil)
  next
    case False
    with 1 have IH: "length (chunk (drop n xs) n) = (length (drop n xs) + n - 1) div n" by simp
    show ?thesis
    proof (cases "length xs \<le> n")
      case True
      with False "1.prems" have "(length xs + n - 1) div n = 1"
        by (cases xs) (auto simp: div_eq_dividend_iff less_Suc_eq_le div_nat_eqI)
      with True False show ?thesis by (simp add: chunk_short)
    next
      case gt: False
      define m where "m = length xs - n"
      with gt have len: "length xs = m + n" by simp
      from "1.prems" have "m + n + n - 1 = (m + n - 1) + n" by simp
      then have "(m + n + n - 1) div n = (m + n - 1) div n + 1"
        using "1.prems" by (simp only: div_add_self2)
      with IH False "1.prems" len show ?thesis by (simp add: chunk_step [of n xs])
    qed
  qed
qed

lemma nth_chunk:
  "0 < n \<Longrightarrow> i < length (chunk xs n) \<Longrightarrow> chunk xs n ! i = take n (drop (i * n) xs)"
proof (induction xs n arbitrary: i rule: chunk.induct)
  case (1 xs n)
  show ?case
  proof (cases "xs = []")
    case True
    with "1.prems" show ?thesis by (simp add: chunk_Nil)
  next
    case False
    with "1.prems" have step: "chunk xs n = take n xs # chunk (drop n xs) n"
      by (simp add: chunk_step [of n xs])
    show ?thesis
    proof (cases i)
      case 0
      with step show ?thesis by simp
    next
      case (Suc j)
      with step "1.prems" have "j < length (chunk (drop n xs) n)" by simp
      with 1 False have "chunk (drop n xs) n ! j = take n (drop (j * n) (drop n xs))" by simp
      with step Suc show ?thesis by (simp add: add.commute)
    qed
  qed
qed


section \<open>Stopping\<close>

lemma flush_outcome:
  "fst (flush ops putMetricData c this) =
     (if metrics this = [] then None
      else fst (sendMetrics ops (cloudwatchDriver this) putMetricData c
                         (Many (map as_rawMetric (getMetrics this)))))"
  by (simp add: flush_def getMetrics_def Map_values_def clearMetrics_def setupFlushTimer_def
      Let_def split: prod.splits)

text \<open>
  The whole result of a flush: the outcome, the client's state and the events are those of
  \<open>sendMetrics\<close> on the records that the collector held, after the clearing of the map.
\<close>

lemma flush_result:
  "flush ops putMetricData c this =
     (case (if metrics this = [] then (None, c, [])
            else sendMetrics ops (cloudwatchDriver this) putMetricData c
                   (Many (map as_rawMetric (getMetrics this)))) of
        (r, c', evs) \<Rightarrow>
          (r,
           (if auto this \<and> \<not> stopped this then setupFlushTimer (this\<lparr>metrics := []\<rparr>)
            else this\<lparr>metrics := []\<rparr>),
           c', MetricsCleared # evs))"
  by (simp add: flush_def getMetrics_def Map_values_def clearMetrics_def setupFlushTimer_def
      Let_def split: prod.splits)

text \<open>
  Claim C6: \<open>stop\<close> on a stopped collector is fulfilled at once and does nothing: no
  event, the collector and the client as they were. On a running collector \<open>stop\<close> is one
  \<open>flush\<close> of the collector marked stopped and with no timer armed, and its whole result
  is pinned: the map is cleared, once; when the collector held records they are handed to
  \<open>sendMetrics\<close>, whose outcome, client state and events (the calls of the client among
  them) are those of \<open>stop\<close>; when it held none the client is not called; the collector
  returned is stopped, has no timer and an empty map, and a second \<open>stop\<close> on it does
  nothing. A collector built without \<open>auto\<close> is stopped from the start, so \<open>stop\<close>,
  however often it is called, never reaches the client.
\<close>

theorem stop_idempotent:
  "(stopped this \<longrightarrow> stop ops putMetricData c this = (None, this, c, []))
   \<and> (\<not> stopped this \<longrightarrow>
        stop ops putMetricData c this
          = flush ops putMetricData c (this\<lparr>stopped := True, flushTimer := None\<rparr>)
        \<and> stop ops putMetricData c this
          = (case (if metrics this = [] then (None, c, [])
                   else sendMetrics ops (cloudwatchDriver this) putMetricData c
                          (Many (map as_rawMetric (getMetrics this)))) of
               (r, c', evs) \<Rightarrow>
                 (r, this\<lparr>stopped := True, flushTimer := None, metrics := []\<rparr>, c',
                  MetricsCleared # evs))
        \<and> (case stop ops putMetricData c this of (r, this', c', evs) \<Rightarrow>
             this' = this\<lparr>stopped := True, flushTimer := None, metrics := []\<rparr>
             \<and> r = (if metrics this = [] then None
                    else fst (sendMetrics ops (cloudwatchDriver this) putMetricData c
                                (Many (map as_rawMetric (getMetrics this)))))
             \<and> putCalls evs
                 = (if metrics this = [] then []
                    else putCalls (snd (snd (sendMetrics ops (cloudwatchDriver this)
                           putMetricData c (Many (map as_rawMetric (getMetrics this)))))))
             \<and> length (filter (\<lambda>e. e = MetricsCleared) evs) = 1
             \<and> stop ops putMetricData c' this' = (None, this', c', [])))
   \<and> (new_MetricCollector options = Inr this \<and> opt_auto options \<noteq> Some True \<longrightarrow>
        stop ops putMetricData c this = (None, this, c, []))"
proof (intro conjI impI)
  assume "stopped this"
  then show "stop ops putMetricData c this = (None, this, c, [])" by (simp add: stop_def)
next
  assume "\<not> stopped this"
  then show "stop ops putMetricData c this
          = flush ops putMetricData c (this\<lparr>stopped := True, flushTimer := None\<rparr>)"
    by (simp add: stop_def)
next
  assume "\<not> stopped this"
  then show "stop ops putMetricData c this
          = (case (if metrics this = [] then (None, c, [])
                   else sendMetrics ops (cloudwatchDriver this) putMetricData c
                          (Many (map as_rawMetric (getMetrics this)))) of
               (r, c', evs) \<Rightarrow>
                 (r, this\<lparr>stopped := True, flushTimer := None, metrics := []\<rparr>, c',
                  MetricsCleared # evs))"
    by (simp add: stop_def flush_result getMetrics_def)
next
  assume running: "\<not> stopped this"
  let ?s = "this\<lparr>stopped := True, flushTimer := None\<rparr>"
  let ?send = "sendMetrics ops (cloudwatchDriver this) putMetricData c
                 (Many (map as_rawMetric (getMetrics this)))"
  obtain r this' c' evs where st: "stop ops putMetricData c this = (r, this', c', evs)"
    by (cases "stop ops putMetricData c this") auto
  with running have fl: "flush ops putMetricData c ?s = (r, this', c', evs)"
    by (simp add: stop_def)
  from flush_collector [of ops putMetricData c ?s] fl
  have 1: "this' = this\<lparr>stopped := True, flushTimer := None, metrics := []\<rparr>" by simp
  from flush_outcome [of ops putMetricData c ?s] fl
  have 2: "r = (if metrics this = [] then None else fst ?send)"
    by (simp add: getMetrics_def)
  from flush_events [of ops putMetricData c ?s] fl
  have evs: "evs = MetricsCleared # (if metrics this = [] then [] else snd (snd ?send))"
    by (simp add: getMetrics_def)
  then have 3: "putCalls evs = (if metrics this = [] then [] else putCalls (snd (snd ?send)))"
    by simp
  from evs sendMetrics_no_clear [of ops "cloudwatchDriver this" putMetricData c
          "Many (map as_rawMetric (getMetrics this))"]
  have 4: "length (filter (\<lambda>e. e = MetricsCleared) evs) = 1"
    by (auto simp: filter_empty_conv split: if_splits)
  from 1 have 5: "stop ops putMetricData c' this' = (None, this', c', [])"
    by (simp add: stop_def)
  from 1 2 3 4 5 st
  show "case stop ops putMetricData c this of (r, this', c', evs) \<Rightarrow>
             this' = this\<lparr>stopped := True, flushTimer := None, metrics := []\<rparr>
             \<and> r = (if metrics this = [] then None
                    else fst (sendMetrics ops (cloudwatchDriver this) putMetricData c
                                (Many (map as_rawMetric (getMetrics this)))))
             \<and> putCalls evs
                 = (if metrics this = [] then []
                    else putCalls (snd (snd (sendMetrics ops (cloudwatchDriver this)
                           putMetricData c (Many (map as_rawMetric (getMetrics this)))))))
             \<and> length (filter (\<lambda>e. e = MetricsCleared) evs) = 1
             \<and> stop ops putMetricData c' this' = (None, this', c', [])"
    by simp
next
  assume "new_MetricCollector options = Inr this \<and> opt_auto options \<noteq> Some True"
  then have "stopped this"
    by (auto simp: new_MetricCollector_def new_CloudWatchDriver_def Let_def
        split: if_splits option.splits sum.splits)
  then show "stop ops putMetricData c this = (None, this, c, [])" by (simp add: stop_def)
qed

lemma sendMetrics_running_collector:
  "sendMetrics integers (cloudwatchDriver running_collector) putMetricData c
     (Many (map as_rawMetric (getMetrics running_collector)))
   = (case putMetricData c
            \<lparr>Namespace = ''test'', MetricData =
               [\<lparr>MetricName = ''eventCount'',
                 Dimensions = [\<lparr>Name = ''eventName'', Value = Some ''X''\<rparr>],
                 Timestamp = None,
                 StatisticValues = Some \<lparr>Maximum = 1, Minimum = 1, SampleCount = 1, Sum = 1\<rparr>,
                 DatumValue = None, Unit = None\<rparr>]\<rparr> of
        (None, c') \<Rightarrow>
          (None, c',
           [PutMetricData \<lparr>Namespace = ''test'', MetricData =
               [\<lparr>MetricName = ''eventCount'',
                 Dimensions = [\<lparr>Name = ''eventName'', Value = Some ''X''\<rparr>],
                 Timestamp = None,
                 StatisticValues = Some \<lparr>Maximum = 1, Minimum = 1, SampleCount = 1, Sum = 1\<rparr>,
                 DatumValue = None, Unit = None\<rparr>]\<rparr>])
      | (Some err, c') \<Rightarrow>
          (Some (err\<lparr>logged := True\<rparr>), c',
           [PutMetricData \<lparr>Namespace = ''test'', MetricData =
               [\<lparr>MetricName = ''eventCount'',
                 Dimensions = [\<lparr>Name = ''eventName'', Value = Some ''X''\<rparr>],
                 Timestamp = None,
                 StatisticValues = Some \<lparr>Maximum = 1, Minimum = 1, SampleCount = 1, Sum = 1\<rparr>,
                 DatumValue = None, Unit = None\<rparr>]\<rparr>,
            LoggerError err \<lparr>Namespace = ''test'', MetricData =
               [\<lparr>MetricName = ''eventCount'',
                 Dimensions = [\<lparr>Name = ''eventName'', Value = Some ''X''\<rparr>],
                 Timestamp = None,
                 StatisticValues = Some \<lparr>Maximum = 1, Minimum = 1, SampleCount = 1, Sum = 1\<rparr>,
                 DatumValue = None, Unit = None\<rparr>]\<rparr>]))"
  by (simp add: running_collector_def getMetrics_def Map_values_def sendMetrics_def
      concat_arg_def METRIC_COUNT_LIMIT_def chunk_short sendBatch_def request_def
      toMetricDatum_def integers_def as_rawMetric_def assign_value_def eventCount_def reduce_def
      Object_keys_def get_prop_def Let_def split: prod.splits option.splits)

lemma new_test_collector:
  "new_MetricCollector \<lparr>opt_serviceNamespace = Some ''test'', opt_logger_has_debug = None,
                            opt_auto = Some False, opt_flushFrequency = None\<rparr>
       = Inr test_collector"
  by (simp add: new_MetricCollector_def new_CloudWatchDriver_def test_collector_def
      DEFAULT_FLUSH_FREQUENCY_def)

text \<open>
  On a running collector that holds one metric. With a client that fulfils one request:
  \<open>stop\<close> is fulfilled, the one request has reached the client, whose state has moved on.
  With a client that rejects: \<open>stop\<close> is rejected with the client's error, after the one
  call. On the collector of the tests, which was built without \<open>auto\<close>: nothing happens.
\<close>

theorem stop_idempotent_witness:
  "\<not> stopped running_collector
   \<and> metrics running_collector \<noteq> []
   \<and> stop integers rejecting_after 1 running_collector
       = (None, running_collector\<lparr>stopped := True, flushTimer := None, metrics := []\<rparr>, 0,
          [MetricsCleared,
           PutMetricData \<lparr>Namespace = ''test'', MetricData =
             [\<lparr>MetricName = ''eventCount'',
               Dimensions = [\<lparr>Name = ''eventName'', Value = Some ''X''\<rparr>],
               Timestamp = None,
               StatisticValues = Some \<lparr>Maximum = 1, Minimum = 1, SampleCount = 1, Sum = 1\<rparr>,
               DatumValue = None, Unit = None\<rparr>]\<rparr>])
   \<and> stop integers rejecting () running_collector
       = (Some (testError\<lparr>logged := True\<rparr>),
          running_collector\<lparr>stopped := True, flushTimer := None, metrics := []\<rparr>, (),
          [MetricsCleared,
           PutMetricData \<lparr>Namespace = ''test'', MetricData =
             [\<lparr>MetricName = ''eventCount'',
               Dimensions = [\<lparr>Name = ''eventName'', Value = Some ''X''\<rparr>],
               Timestamp = None,
               StatisticValues = Some \<lparr>Maximum = 1, Minimum = 1, SampleCount = 1, Sum = 1\<rparr>,
               DatumValue = None, Unit = None\<rparr>]\<rparr>,
           LoggerError testError \<lparr>Namespace = ''test'', MetricData =
             [\<lparr>MetricName = ''eventCount'',
               Dimensions = [\<lparr>Name = ''eventName'', Value = Some ''X''\<rparr>],
               Timestamp = None,
               StatisticValues = Some \<lparr>Maximum = 1, Minimum = 1, SampleCount = 1, Sum = 1\<rparr>,
               DatumValue = None, Unit = None\<rparr>]\<rparr>])
   \<and> stopped test_collector
   \<and> new_MetricCollector \<lparr>opt_serviceNamespace = Some ''test'', opt_logger_has_debug = None,
                            opt_auto = Some False, opt_flushFrequency = None\<rparr>
       = Inr test_collector
   \<and> stop integers rejecting () test_collector = (None, test_collector, (), [])"
proof -
  let ?q = "\<lparr>Namespace = ''test'', MetricData =
             [\<lparr>MetricName = ''eventCount'',
               Dimensions = [\<lparr>Name = ''eventName'', Value = Some ''X''\<rparr>],
               Timestamp = None,
               StatisticValues = Some \<lparr>Maximum = 1::int, Minimum = 1, SampleCount = 1, Sum = 1\<rparr>,
               DatumValue = None, Unit = None\<rparr>]\<rparr>"
  let ?s = "running_collector\<lparr>stopped := True, flushTimer := None, metrics := []\<rparr>"
  have running: "\<not> stopped running_collector" and held: "metrics running_collector \<noteq> []"
    by (simp_all add: running_collector_def)
  have stopped: "stopped test_collector" by (simp add: test_collector_def)
  have send1: "sendMetrics integers (cloudwatchDriver running_collector) rejecting_after 1
                 (Many (map as_rawMetric (getMetrics running_collector)))
               = (None, 0, [PutMetricData ?q])"
    by (simp add: sendMetrics_running_collector rejecting_after_def)
  have send2: "sendMetrics integers (cloudwatchDriver running_collector) rejecting ()
                 (Many (map as_rawMetric (getMetrics running_collector)))
               = (Some (testError\<lparr>logged := True\<rparr>), (),
                  [PutMetricData ?q, LoggerError testError ?q])"
    by (simp add: sendMetrics_running_collector rejecting_def)
  from stop_idempotent [where this = running_collector and ops = integers
      and putMetricData = rejecting_after and c = 1] running
  have "stop integers rejecting_after 1 running_collector
        = (case (if metrics running_collector = [] then (None, 1, [])
                 else sendMetrics integers (cloudwatchDriver running_collector) rejecting_after 1
                        (Many (map as_rawMetric (getMetrics running_collector)))) of
             (r, c', evs) \<Rightarrow> (r, ?s, c', MetricsCleared # evs))"
    by blast
  then have a: "stop integers rejecting_after 1 running_collector
                = (None, ?s, 0, [MetricsCleared, PutMetricData ?q])"
    by (simp only: held if_False send1 prod.case)
  from stop_idempotent [where this = running_collector and ops = integers
      and putMetricData = rejecting and c = "()"] running
  have "stop integers rejecting () running_collector
        = (case (if metrics running_collector = [] then (None, (), [])
                 else sendMetrics integers (cloudwatchDriver running_collector) rejecting ()
                        (Many (map as_rawMetric (getMetrics running_collector)))) of
             (r, c', evs) \<Rightarrow> (r, ?s, c', MetricsCleared # evs))"
    by blast
  then have b: "stop integers rejecting () running_collector
                = (Some (testError\<lparr>logged := True\<rparr>), ?s, (),
                   [MetricsCleared, PutMetricData ?q, LoggerError testError ?q])"
    by (simp only: held if_False send2 prod.case)
  from stop_idempotent [where this = test_collector and ops = integers
      and putMetricData = rejecting and c = "()"] stopped
  have c: "stop integers rejecting () test_collector = (None, test_collector, (), [])"
    by blast
  from running held a b stopped new_test_collector c show ?thesis by (intro conjI)
qed


section \<open>Submitting in chunks\<close>

lemma putCalls_append: "putCalls (evs @ evs') = putCalls evs @ putCalls evs'"
  by (induction evs rule: putCalls.induct) simp_all

lemma errorLogs_append: "errorLogs (evs @ evs') = errorLogs evs @ errorLogs evs'"
  by (induction evs rule: errorLogs.induct) simp_all

lemma map_throwing_Inr:
  "map_throwing f xs = Inr ys \<longleftrightarrow>
     (\<forall>x \<in> set xs. \<exists>y. f x = Inr y) \<and> ys = map (\<lambda>x. projr (f x)) xs"
proof (induction xs arbitrary: ys)
  case Nil
  show ?case by auto
next
  case (Cons x xs)
  show ?case
  proof (cases "f x")
    case (Inl e)
    then show ?thesis by auto
  next
    case (Inr y)
    show ?thesis
    proof (cases "map_throwing f xs")
      case (Inl e)
      with Cons [of "map (\<lambda>x. projr (f x)) xs"] Inr show ?thesis by auto
    next
      case r: (Inr zs)
      with Cons [of zs] Inr show ?thesis by auto
    qed
  qed
qed

lemma sendBatch_built:
  assumes "map_throwing (toMetricDatum ops) b = Inr ds"
    and "putMetricData c (request this ds) = (r, c')"
  shows "\<exists>evs. sendBatch ops this putMetricData c b = (map_option (\<lambda>e. e\<lparr>logged := True\<rparr>) r, c', evs)
           \<and> putCalls evs = [request this ds]
           \<and> errorLogs evs = (case r of None \<Rightarrow> [] | Some e \<Rightarrow> [(e, request this ds)])"
  using assms by (cases r) (simp_all add: sendBatch_def Let_def)

lemma BPromise_map_accepted:
  assumes "\<forall>ch \<in> set chs. \<forall>x \<in> set ch. \<exists>y. toMetricDatum ops x = Inr y"
    and "answers putMetricData c
           (map (\<lambda>ch. request this (map (\<lambda>x. projr (toMetricDatum ops x)) ch)) chs)
         = replicate (length chs) None"
  shows "\<exists>c' evs.
           BPromise_map (sendBatch ops this putMetricData) chs c = (None, c', evs)
         \<and> putCalls evs
             = map (\<lambda>ch. request this (map (\<lambda>x. projr (toMetricDatum ops x)) ch)) chs
         \<and> errorLogs evs = []"
  using assms
proof (induction chs arbitrary: c)
  case Nil
  then show ?case by simp
next
  case (Cons ch chs)
  let ?q = "\<lambda>ch. request this (map (\<lambda>x. projr (toMetricDatum ops x)) ch)"
  from Cons.prems(1)
  have built: "map_throwing (toMetricDatum ops) ch = Inr (map (\<lambda>x. projr (toMetricDatum ops x)) ch)"
    by (simp add: map_throwing_Inr)
  obtain r c1 where put: "putMetricData c (?q ch) = (r, c1)"
    by (cases "putMetricData c (?q ch)") auto
  with Cons.prems(2) have r: "r = None"
    and ans: "answers putMetricData c1 (map ?q chs) = replicate (length chs) None"
    by simp_all
  from sendBatch_built [where putMetricData = putMetricData and c = c and this = this,
      OF built put] r
  obtain evs1 where first: "sendBatch ops this putMetricData c ch = (None, c1, evs1)"
    "putCalls evs1 = [?q ch]" "errorLogs evs1 = []"
    by auto
  from Cons.prems(1) have "\<forall>ch \<in> set chs. \<forall>x \<in> set ch. \<exists>y. toMetricDatum ops x = Inr y"
    by simp
  from Cons.IH [OF this ans] obtain c' evs2 where rest:
    "BPromise_map (sendBatch ops this putMetricData) chs c1 = (None, c', evs2)"
    "putCalls evs2 = map ?q chs" "errorLogs evs2 = []"
    by blast
  with first show ?case by (simp add: putCalls_append errorLogs_append)
qed

lemma chunk_map: "chunk (map f xs) n = map (map f) (chunk xs n)"
proof (induction xs n rule: chunk.induct)
  case (1 xs n)
  show ?case
  proof (cases "n = 0 \<or> xs = []")
    case True
    then show ?thesis by (auto simp: chunk.simps [of xs] chunk.simps [of "map f xs"])
  next
    case False
    with 1 have "chunk (map f (drop n xs)) n = map (map f) (chunk (drop n xs) n)" by simp
    with False show ?thesis
      by (simp add: chunk_step [of n xs] chunk_step [of n "map f xs"] take_map drop_map)
  qed
qed

lemma ceil_ge_floor: "i < N div 20 \<Longrightarrow> i < (N + 19) div (20::nat)"
  by (meson div_le_mono le_add1 less_le_trans)

lemma full_chunk_fits:
  assumes "i < N div 20"
  shows "i * 20 + 20 \<le> (N::nat)"
proof -
  from assms have "Suc i \<le> N div 20" by simp
  then have "Suc i * 20 \<le> N div 20 * 20" by (rule mult_le_mono1)
  also have "\<dots> \<le> N" by simp
  finally show ?thesis by simp
qed

lemma ceil_with_remainder:
  assumes "N mod 20 \<noteq> 0"
  shows "(N + 19) div 20 = Suc (N div (20::nat))"
proof -
  define q r where "q = N div 20" and "r = N mod 20"
  then have N: "N = q * 20 + r" and r: "r < 20" by simp_all
  from assms r_def have r0: "0 < r" by simp
  have "(N + 19) div 20 = Suc q"
  proof (rule div_nat_eqI)
    from N r0 show "20 * Suc q \<le> N + 19" by arith
    from N r show "N + 19 < 20 * Suc (Suc q)" by arith
  qed
  with q_def show ?thesis by simp
qed

lemma raw_of_collector_with:
  "map as_rawMetric (getMetrics (collector_with N)) = map (\<lambda>n. as_rawMetric (sample n)) [0..<N]"
  by (simp add: collector_with_def getMetrics_def Map_values_def comp_def)

lemma toMetricDatum_sample: "toMetricDatum integers (as_rawMetric (sample n)) = Inr (sample_datum n)"
  by (simp add: toMetricDatum_def integers_def as_rawMetric_def sample_def assign_value_def eventCount_def
      sample_datum_def reduce_def Object_keys_def get_prop_def Let_def)

lemma map_throwing_map:
  "(\<And>x. f (h x) = Inr (g x)) \<Longrightarrow> map_throwing f (map h xs) = Inr (map g xs)"
  by (induction xs) simp_all

lemma chunk_upt_21:
  "chunk (map f [0..<21]) 20 = [map f [0..<20], map f [20..<21]]"
proof -
  have "chunk [0..<21] 20 = take 20 [0..<21] # chunk (drop 20 [0..<21]) 20"
    by (rule chunk_step) simp_all
  also have "drop 20 [0..<21] = [20..<21]" by (simp add: drop_upt)
  also have "take 20 [0..<21] = [0..<20]" by (simp add: take_upt)
  also have "chunk [20..<21] 20 = [[20..<21]]" by (rule chunk_short) simp_all
  finally show ?thesis by (simp only: chunk_map list.map)
qed

lemma chunk_upt_41:
  "chunk (map f [0..<41]) 20 = [map f [0..<20], map f [20..<40], map f [40..<41]]"
proof -
  have "chunk [0..<41] 20 = take 20 [0..<41] # chunk (drop 20 [0..<41]) 20"
    by (rule chunk_step) simp_all
  also have "drop 20 [0..<41] = [20..<41]" by (simp add: drop_upt)
  also have "take 20 [0..<41] = [0..<20]" by (simp add: take_upt)
  also have "chunk [20..<41] 20 = take 20 [20..<41] # chunk (drop 20 [20..<41]) 20"
    by (rule chunk_step) simp_all
  also have "drop 20 [20..<41] = [40..<41]" by (simp add: drop_upt)
  also have "take 20 [20..<41] = [20..<40]" by (simp add: take_upt)
  also have "chunk [40..<41] 20 = [[40..<41]]" by (rule chunk_short) simp_all
  finally show ?thesis by (simp only: chunk_map list.map)
qed

lemmas built_samples =
  map_throwing_map [of "toMetricDatum integers" "\<lambda>n. as_rawMetric (sample n)" sample_datum,
    OF toMetricDatum_sample]

lemma driver_of_collector_with:
  "cloudwatchDriver (collector_with N) = \<lparr>serviceNamespace = ''test'', logger_has_debug = False\<rparr>"
  by (simp add: collector_with_def running_collector_def)

lemma length_collector_with: "length (getMetrics (collector_with N)) = N"
  by (simp add: collector_with_def getMetrics_def Map_values_def)

lemma sendMetrics_rejecting_21:
  "sendMetrics integers (cloudwatchDriver (collector_with 21)) rejecting ()
     (Many (map as_rawMetric (getMetrics (collector_with 21))))
   = (Some (testError\<lparr>logged := True\<rparr>), (),
      [PutMetricData \<lparr>Namespace = ''test'', MetricData = map sample_datum [0..<20]\<rparr>,
       LoggerError testError \<lparr>Namespace = ''test'', MetricData = map sample_datum [0..<20]\<rparr>])"
  by (simp add: raw_of_collector_with driver_of_collector_with sendMetrics_def concat_arg_def
      METRIC_COUNT_LIMIT_def chunk_upt_21 sendBatch_def built_samples request_def rejecting_def Let_def
      del: upt_rec_numeral)

text \<open>
  Claim C3 says that for every list of \<open>N > 20\<close> records \<open>sendMetrics\<close> calls the
  client \<open>ceil(N/20)\<close> times. It does so only as long as the client fulfils the
  requests: with 21 records and a client that rejects, the first request is the only
  one, where \<open>ceil(21/20) = 2\<close>.
\<close>

theorem rejected_first_chunk_ends_submission:
  "length (map as_rawMetric (getMetrics (collector_with 21))) = 21
   \<and> length (putCalls (snd (snd (sendMetrics integers (cloudwatchDriver (collector_with 21)) rejecting ()
          (Many (map as_rawMetric (getMetrics (collector_with 21)))))))) = 1"
  by (simp add: sendMetrics_rejecting_21 length_collector_with del: upt_rec_numeral)

text \<open>
  Claim C3, as amended. Take \<open>N\<close> records whose entries can all be built, a client that
  fulfils the requests it is sent, and any order in which the promise library takes the
  chunks, one at a time and each once. Then \<open>sendMetrics\<close> is fulfilled after exactly
  \<open>ceil(N/20)\<close> calls of the client, here \<open>(N + 19) div 20\<close>, and nothing is logged as an
  error. The calls are, in the library's order, the requests of the chunks of the list of
  entries, one call for each chunk; the chunks are the consecutive slices of that list:
  put end to end they are the entries of all records, each once and in the original order,
  the first \<open>floor(N/20)\<close> chunks hold exactly 20 entries each, and the last chunk holds
  the remainder. So the calls come in the original order across chunks, the last call
  carrying the remainder, exactly when the library takes the chunks in their own order.
\<close>

theorem chunked_submission:
  assumes "map_throwing (toMetricDatum ops) rawMetrics = Inr metricsData"
    and "distinct order"
    and "set order = {..<(length rawMetrics + 19) div 20}"
    and "answers putMetricData c
           (map (\<lambda>i. request this (chunk metricsData 20 ! i)) order)
         = replicate (length order) None"
  shows "\<exists>c' evs.
           sendMetrics_in order ops this putMetricData c (Many rawMetrics) = (None, c', evs)
         \<and> putCalls evs = map (\<lambda>i. request this (chunk metricsData 20 ! i)) order
         \<and> errorLogs evs = []
         \<and> length (putCalls evs) = (length rawMetrics + 19) div 20
         \<and> length (chunk metricsData 20) = (length rawMetrics + 19) div 20
         \<and> concat (chunk metricsData 20) = metricsData
         \<and> list_all2 (\<lambda>rawMetric datum. toMetricDatum ops rawMetric = Inr datum)
               rawMetrics metricsData
         \<and> (\<forall>i < length rawMetrics div 20. length (chunk metricsData 20 ! i) = 20)
         \<and> (length rawMetrics mod 20 \<noteq> 0 \<longrightarrow>
              length (last (chunk metricsData 20)) = length rawMetrics mod 20)"
proof -
  let ?g = "\<lambda>x. projr (toMetricDatum ops x)"
  let ?N = "length rawMetrics"
  let ?chs = "chunk rawMetrics 20"
  from assms(1) have ok: "\<forall>x \<in> set rawMetrics. \<exists>y. toMetricDatum ops x = Inr y"
    and ds: "metricsData = map ?g rawMetrics"
    by (simp_all add: map_throwing_Inr)
  from ok have "\<forall>x \<in> set rawMetrics. toMetricDatum ops x = Inr (?g x)" by force
  then have rel: "list_all2 (\<lambda>rawMetric datum. toMetricDatum ops rawMetric = Inr datum)
                          rawMetrics metricsData"
    by (simp add: ds list_all2_map2 list_all2_same)
  have len_raw: "length ?chs = (?N + 19) div 20" by (simp add: length_chunk)
  from ds have len: "length (chunk metricsData 20) = (?N + 19) div 20"
    by (simp add: length_chunk)
  have all: "concat (chunk metricsData 20) = metricsData" by (simp add: concat_chunk)
  from assms(3) len_raw have valid: "\<forall>i \<in> set order. i < length ?chs" by simp
  then have keep: "filter (\<lambda>i. i < length ?chs) order = order" by simp
  have "set rawMetrics = set (concat ?chs)" by (simp add: concat_chunk)
  with ok have built: "\<forall>ch \<in> set ?chs. \<forall>x \<in> set ch. \<exists>y. toMetricDatum ops x = Inr y"
    by auto
  with valid
  have built': "\<forall>ch \<in> set (map (\<lambda>i. ?chs ! i) order). \<forall>x \<in> set ch. \<exists>y. toMetricDatum ops x = Inr y"
    by auto
  have nth: "chunk metricsData 20 ! i = map ?g (?chs ! i)" if "i \<in> set order" for i
    using that valid by (simp add: ds chunk_map)
  then have reqs: "map (\<lambda>ch. request this (map ?g ch)) (map (\<lambda>i. ?chs ! i) order)
                   = map (\<lambda>i. request this (chunk metricsData 20 ! i)) order"
    by simp
  with assms(4)
  have ans: "answers putMetricData c
               (map (\<lambda>ch. request this (map ?g ch)) (map (\<lambda>i. ?chs ! i) order))
             = replicate (length (map (\<lambda>i. ?chs ! i) order)) None"
    by (simp only: reqs length_map)
  from BPromise_map_accepted [OF built' ans] obtain c' evs where run:
    "BPromise_map (sendBatch ops this putMetricData) (map (\<lambda>i. ?chs ! i) order) c = (None, c', evs)"
    "putCalls evs = map (\<lambda>ch. request this (map ?g ch)) (map (\<lambda>i. ?chs ! i) order)"
    "errorLogs evs = []"
    by blast
  from run(1) keep have send:
    "sendMetrics_in order ops this putMetricData c (Many rawMetrics) = (None, c', evs)"
    by (simp add: sendMetrics_in_def concat_arg_def METRIC_COUNT_LIMIT_def Let_def)
  from run(2) have calls:
    "putCalls evs = map (\<lambda>i. request this (chunk metricsData 20 ! i)) order"
    by (simp only: reqs)
  from assms(2) have "length order = card (set order)" by (simp add: distinct_card)
  with assms(3) have count: "length order = (?N + 19) div 20" by simp
  have full: "length (chunk metricsData 20 ! i) = 20" if "i < ?N div 20" for i
  proof -
    from that have i: "i < length (chunk metricsData 20)" and le: "i * 20 + 20 \<le> ?N"
      unfolding len by (rule ceil_ge_floor, rule full_chunk_fits)
    from i have "chunk metricsData 20 ! i = take 20 (drop (i * 20) metricsData)"
      by (simp add: nth_chunk)
    with le ds show ?thesis by simp
  qed
  have rest: "length (last (chunk metricsData 20)) = ?N mod 20" if "?N mod 20 \<noteq> 0"
  proof -
    from that have suc: "length (chunk metricsData 20) = Suc (?N div 20)"
      unfolding len by (rule ceil_with_remainder)
    then have pos: "chunk metricsData 20 \<noteq> []"
      and idx: "length (chunk metricsData 20) - 1 = ?N div 20"
      by auto
    from pos idx have "last (chunk metricsData 20) = chunk metricsData 20 ! (?N div 20)"
      by (simp add: last_conv_nth)
    also from suc have "\<dots> = take 20 (drop (?N div 20 * 20) metricsData)"
      by (subst nth_chunk) simp_all
    finally show ?thesis using ds by (simp add: minus_div_mult_eq_mod)
  qed
  from send calls run(3) count len all rel full rest show ?thesis
    by (intro exI [of _ c'] exI [of _ evs]) (simp add: calls)
qed

text \<open>With the chunks taken in their own order, \<open>sendMetrics_in\<close> is \<open>sendMetrics\<close>.\<close>

lemma sendMetrics_in_own_order:
  "sendMetrics_in [0..<length (chunk (concat_arg rawMetrics) METRIC_COUNT_LIMIT)]
     ops this putMetricData c rawMetrics
   = sendMetrics ops this putMetricData c rawMetrics"
  by (simp add: sendMetrics_in_def sendMetrics_def Let_def map_nth)

lemma answers_fulfilling: "answers fulfilling c qs = replicate (length qs) None"
  by (induction qs) (simp_all add: fulfilling_def)

lemma sendMetrics_in_021:
  "sendMetrics_in [0, 2, 1] integers (cloudwatchDriver (collector_with 41)) fulfilling ()
     (Many (map as_rawMetric (getMetrics (collector_with 41))))
   = (None, (),
      [PutMetricData \<lparr>Namespace = ''test'', MetricData = map sample_datum [0..<20]\<rparr>,
       PutMetricData \<lparr>Namespace = ''test'', MetricData = map sample_datum [40..<41]\<rparr>,
       PutMetricData \<lparr>Namespace = ''test'', MetricData = map sample_datum [20..<40]\<rparr>])"
  by (simp add: raw_of_collector_with driver_of_collector_with sendMetrics_in_def concat_arg_def
      METRIC_COUNT_LIMIT_def chunk_upt_41 sendBatch_def built_samples request_def fulfilling_def
      Let_def del: upt_rec_numeral)

text \<open>
  With 41 records, a client that fulfils every request, and the chunks taken in the order
  0, 2, 1: three requests, of 20, 1 and 20 entries; the second call carries the remainder.
\<close>

theorem chunked_submission_witness:
  "map_throwing (toMetricDatum integers) (map as_rawMetric (getMetrics (collector_with 41)))
     = Inr (map sample_datum [0..<41])
   \<and> distinct [0, 2, 1::nat]
   \<and> set [0, 2, 1::nat]
       = {..<(length (map as_rawMetric (getMetrics (collector_with 41))) + 19) div 20}
   \<and> answers fulfilling ()
         (map (\<lambda>i. request (cloudwatchDriver (collector_with 41))
                    (chunk (map sample_datum [0..<41]) 20 ! i)) [0, 2, 1])
       = replicate (length [0, 2, 1::nat]) None
   \<and> sendMetrics_in [0, 2, 1] integers (cloudwatchDriver (collector_with 41)) fulfilling ()
       (Many (map as_rawMetric (getMetrics (collector_with 41))))
     = (None, (),
        [PutMetricData \<lparr>Namespace = ''test'', MetricData = map sample_datum [0..<20]\<rparr>,
         PutMetricData \<lparr>Namespace = ''test'', MetricData = map sample_datum [40..<41]\<rparr>,
         PutMetricData \<lparr>Namespace = ''test'', MetricData = map sample_datum [20..<40]\<rparr>])
   \<and> length (chunk (map sample_datum [0..<41]) 20) = 3
   \<and> length (last (chunk (map sample_datum [0..<41]) 20)) = 1"
proof -
  let ?R = "map as_rawMetric (getMetrics (collector_with 41))"
  have h1: "map_throwing (toMetricDatum integers) ?R = Inr (map sample_datum [0..<41])"
    by (simp only: raw_of_collector_with built_samples)
  have h2: "distinct [0, 2, 1::nat]" by simp
  have "(length ?R + 19) div 20 = 3" by (simp add: length_collector_with)
  moreover have "set [0, 2, 1::nat] = {..<3}" by (auto simp: numeral_3_eq_3 less_Suc_eq)
  ultimately have h3: "set [0, 2, 1::nat] = {..<(length ?R + 19) div 20}" by simp
  have h4: "answers fulfilling ()
         (map (\<lambda>i. request (cloudwatchDriver (collector_with 41))
                    (chunk (map sample_datum [0..<41]) 20 ! i)) [0, 2, 1])
       = replicate (length [0, 2, 1::nat]) None"
    by (simp only: answers_fulfilling length_map)
  from chunked_submission [OF h1 h2 h3 h4]
  have "length (chunk (map sample_datum [0..<41]) 20) = (length ?R + 19) div 20
        \<and> (length ?R mod 20 \<noteq> 0 \<longrightarrow>
             length (last (chunk (map sample_datum [0..<41]) 20)) = length ?R mod 20)"
    by blast
  then have sizes: "length (chunk (map sample_datum [0..<41]) 20) = 3"
    "length (last (chunk (map sample_datum [0..<41]) 20)) = 1"
    by (simp_all add: length_collector_with)
  from h1 h2 h3 h4 sendMetrics_in_021 sizes show ?thesis by (intro conjI)
qed


lemma BPromise_map_rejected:
  assumes "i < length chs"
    and "\<forall>ch \<in> set (take (Suc i) chs). \<forall>x \<in> set ch. \<exists>y. toMetricDatum ops x = Inr y"
    and "answers putMetricData c
           (map (\<lambda>ch. request this (map (\<lambda>x. projr (toMetricDatum ops x)) ch)) (take (Suc i) chs))
         = replicate i None @ [Some err]"
  shows "\<exists>c' evs.
           BPromise_map (sendBatch ops this putMetricData) chs c = (Some (err\<lparr>logged := True\<rparr>), c', evs)
         \<and> putCalls evs
             = map (\<lambda>ch. request this (map (\<lambda>x. projr (toMetricDatum ops x)) ch)) (take (Suc i) chs)
         \<and> errorLogs evs = [(err, request this (map (\<lambda>x. projr (toMetricDatum ops x)) (chs ! i)))]"
  using assms
proof (induction chs arbitrary: i c)
  case Nil
  then show ?case by simp
next
  case (Cons ch chs)
  let ?q = "\<lambda>ch. request this (map (\<lambda>x. projr (toMetricDatum ops x)) ch)"
  from Cons.prems(2) have built: "map_throwing (toMetricDatum ops) ch = Inr (map (\<lambda>x. projr (toMetricDatum ops x)) ch)"
    by (simp add: map_throwing_Inr)
  obtain r c1 where put: "putMetricData c (?q ch) = (r, c1)"
    by (cases "putMetricData c (?q ch)") auto
  from sendBatch_built [where putMetricData = putMetricData and c = c and this = this,
      OF built put]
  obtain evs1 where first:
    "sendBatch ops this putMetricData c ch = (map_option (\<lambda>e. e\<lparr>logged := True\<rparr>) r, c1, evs1)"
    "putCalls evs1 = [?q ch]"
    "errorLogs evs1 = (case r of None \<Rightarrow> [] | Some e \<Rightarrow> [(e, ?q ch)])"
    by blast
  show ?case
  proof (cases i)
    case 0
    with Cons.prems(3) put have "r = Some err" by simp
    with first 0 show ?thesis by simp
  next
    case (Suc j)
    with Cons.prems(3) put have r: "r = None"
      and ans: "answers putMetricData c1 (map ?q (take (Suc j) chs)) = replicate j None @ [Some err]"
      by simp_all
    from Suc Cons.prems(1) have j: "j < length chs" by simp
    from Suc Cons.prems(2)
    have ok: "\<forall>ch \<in> set (take (Suc j) chs). \<forall>x \<in> set ch. \<exists>y. toMetricDatum ops x = Inr y"
      by simp
    from Cons.IH [OF j ok ans] obtain c' evs2 where rest:
      "BPromise_map (sendBatch ops this putMetricData) chs c1 = (Some (err\<lparr>logged := True\<rparr>), c', evs2)"
      "putCalls evs2 = map ?q (take (Suc j) chs)"
      "errorLogs evs2 = [(err, ?q (chs ! j))]"
      by blast
    with first r Suc show ?thesis by (simp add: putCalls_append errorLogs_append)
  qed
qed

text \<open>
  Claim C9: when the client fulfils the requests of the chunks before chunk \<open>i\<close> and
  rejects the request of chunk \<open>i\<close> with \<open>err\<close>, then \<open>sendMetrics\<close> is rejected
  with that error tagged \<open>_logged\<close>; the requests that have reached the client are
  those of the chunks up to \<open>i\<close> and no other, \<open>i + 1\<close> in all; the only error-level
  log entry is the one of \<open>err\<close> with the request of chunk \<open>i\<close>; and a \<open>flush\<close> (or
  a \<open>stop\<close> of a running collector) that hands these records to the driver is rejected
  with the same error.
\<close>

theorem transport_failure_fail_fast:
  assumes "i < length (chunk rawMetrics 20)"
    and "map_throwing (map_throwing (toMetricDatum ops)) (take (Suc i) (chunk rawMetrics 20)) = Inr dss"
    and "answers putMetricData c (map (request this) dss) = replicate i None @ [Some err]"
  shows "\<exists>c' evs.
           sendMetrics ops this putMetricData c (Many rawMetrics) = (Some (err\<lparr>logged := True\<rparr>), c', evs)
         \<and> putCalls evs = map (request this) dss
         \<and> length (putCalls evs) = Suc i
         \<and> errorLogs evs = [(err, request this (dss ! i))]
         \<and> (\<forall>collector. cloudwatchDriver collector = this
                \<and> map as_rawMetric (getMetrics collector) = rawMetrics \<longrightarrow>
              fst (flush ops putMetricData c collector) = Some (err\<lparr>logged := True\<rparr>)
              \<and> (\<not> stopped collector \<longrightarrow>
                   fst (stop ops putMetricData c collector) = Some (err\<lparr>logged := True\<rparr>)))"
proof -
  let ?g = "\<lambda>x. projr (toMetricDatum ops x)"
  let ?chs = "take (Suc i) (chunk rawMetrics 20)"
  from assms(2) have outer: "\<forall>ch \<in> set ?chs. \<exists>ds. map_throwing (toMetricDatum ops) ch = Inr ds"
    and dss0: "dss = map (\<lambda>ch. projr (map_throwing (toMetricDatum ops) ch)) ?chs"
    by (simp_all add: map_throwing_Inr)
  have each: "(\<forall>x \<in> set ch. \<exists>y. toMetricDatum ops x = Inr y)
              \<and> projr (map_throwing (toMetricDatum ops) ch) = map ?g ch" if "ch \<in> set ?chs" for ch
  proof -
    from that outer obtain ds where ds: "map_throwing (toMetricDatum ops) ch = Inr ds" by blast
    then have "(\<forall>x \<in> set ch. \<exists>y. toMetricDatum ops x = Inr y) \<and> ds = map ?g ch"
      by (simp add: map_throwing_Inr)
    with ds show ?thesis by simp
  qed
  then have ok: "\<forall>ch \<in> set ?chs. \<forall>x \<in> set ch. \<exists>y. toMetricDatum ops x = Inr y"
    by blast
  from each dss0 have dss: "dss = map (map ?g) ?chs" by simp
  from dss assms(3)
  have ans: "answers putMetricData c (map (\<lambda>ch. request this (map ?g ch)) ?chs)
             = replicate i None @ [Some err]"
    by (simp add: comp_def)
  from BPromise_map_rejected [OF assms(1) ok ans] obtain c' evs where run:
    "BPromise_map (sendBatch ops this putMetricData) (chunk rawMetrics 20) c
       = (Some (err\<lparr>logged := True\<rparr>), c', evs)"
    "putCalls evs = map (\<lambda>ch. request this (map ?g ch)) ?chs"
    "errorLogs evs = [(err, request this (map ?g (chunk rawMetrics 20 ! i)))]"
    by blast
  from run(1) have send:
    "sendMetrics ops this putMetricData c (Many rawMetrics) = (Some (err\<lparr>logged := True\<rparr>), c', evs)"
    by (simp add: sendMetrics_def concat_arg_def METRIC_COUNT_LIMIT_def)
  from run(2) dss have calls: "putCalls evs = map (request this) dss" by (simp add: comp_def)
  from dss assms(1) have len: "length dss = Suc i" by simp
  from dss assms(1) have "dss ! i = map ?g (chunk rawMetrics 20 ! i)" by simp
  with run(3) have logs: "errorLogs evs = [(err, request this (dss ! i))]" by simp
  from assms(1) have nonempty: "rawMetrics \<noteq> []" by (auto simp: chunk_Nil)
  have coll: "fst (flush ops putMetricData c collector) = Some (err\<lparr>logged := True\<rparr>)
              \<and> (\<not> stopped collector \<longrightarrow>
                   fst (stop ops putMetricData c collector) = Some (err\<lparr>logged := True\<rparr>))"
    if "cloudwatchDriver collector = this \<and> map as_rawMetric (getMetrics collector) = rawMetrics"
    for collector
  proof -
    from that nonempty have ne: "metrics collector \<noteq> []"
      by (auto simp: getMetrics_def Map_values_def)
    from that send ne have fl: "fst (flush ops putMetricData c collector) = Some (err\<lparr>logged := True\<rparr>)"
      by (simp add: flush_outcome)
    let ?s = "collector\<lparr>stopped := True, flushTimer := None\<rparr>"
    from that send ne have "fst (flush ops putMetricData c ?s) = Some (err\<lparr>logged := True\<rparr>)"
      by (simp add: flush_outcome getMetrics_def)
    then have "\<not> stopped collector \<longrightarrow>
                   fst (stop ops putMetricData c collector) = Some (err\<lparr>logged := True\<rparr>)"
      by (simp add: stop_def)
    with fl show ?thesis by simp
  qed
  from send calls len logs coll show ?thesis by (simp add: calls)
qed

lemma sendMetrics_rejecting_after_41:
  "sendMetrics integers (cloudwatchDriver (collector_with 41)) rejecting_after 1
     (Many (map as_rawMetric (getMetrics (collector_with 41))))
   = (Some (testError\<lparr>logged := True\<rparr>), 0,
      [PutMetricData \<lparr>Namespace = ''test'', MetricData = map sample_datum [0..<20]\<rparr>,
       PutMetricData \<lparr>Namespace = ''test'', MetricData = map sample_datum [20..<40]\<rparr>,
       LoggerError testError \<lparr>Namespace = ''test'', MetricData = map sample_datum [20..<40]\<rparr>])"
  by (simp add: raw_of_collector_with driver_of_collector_with sendMetrics_def concat_arg_def
      METRIC_COUNT_LIMIT_def chunk_upt_41 sendBatch_def built_samples request_def
      rejecting_after_def Let_def del: upt_rec_numeral)

text \<open>
  With 41 records and a client that fulfils one request and rejects the next: the second
  request is rejected, it is the last one, and the third chunk is never sent.
\<close>

theorem transport_failure_fail_fast_witness:
  "1 < length (chunk (map as_rawMetric (getMetrics (collector_with 41))) 20)
   \<and> map_throwing (map_throwing (toMetricDatum integers))
         (take (Suc 1) (chunk (map as_rawMetric (getMetrics (collector_with 41))) 20))
       = Inr [map sample_datum [0..<20], map sample_datum [20..<40]]
   \<and> answers rejecting_after 1
         (map (request (cloudwatchDriver (collector_with 41)))
            [map sample_datum [0..<20], map sample_datum [20..<40]])
       = replicate 1 None @ [Some testError]
   \<and> \<not> stopped (collector_with 41)
   \<and> sendMetrics integers (cloudwatchDriver (collector_with 41)) rejecting_after 1
         (Many (map as_rawMetric (getMetrics (collector_with 41))))
       = (Some (testError\<lparr>logged := True\<rparr>), 0,
          [PutMetricData \<lparr>Namespace = ''test'', MetricData = map sample_datum [0..<20]\<rparr>,
           PutMetricData \<lparr>Namespace = ''test'', MetricData = map sample_datum [20..<40]\<rparr>,
           LoggerError testError
             \<lparr>Namespace = ''test'', MetricData = map sample_datum [20..<40]\<rparr>])
   \<and> fst (flush integers rejecting_after 1 (collector_with 41)) = Some (testError\<lparr>logged := True\<rparr>)
   \<and> fst (stop integers rejecting_after 1 (collector_with 41)) = Some (testError\<lparr>logged := True\<rparr>)"
proof -
  have chunks: "chunk (map as_rawMetric (getMetrics (collector_with 41))) 20
      = [map (\<lambda>n. as_rawMetric (sample n)) [0..<20],
         map (\<lambda>n. as_rawMetric (sample n)) [20..<40],
         map (\<lambda>n. as_rawMetric (sample n)) [40..<41]]"
    by (simp only: raw_of_collector_with chunk_upt_41)
  have h1: "1 < length (chunk (map as_rawMetric (getMetrics (collector_with 41))) 20)"
    by (simp add: chunks)
  have h2: "map_throwing (map_throwing (toMetricDatum integers))
         (take (Suc 1) (chunk (map as_rawMetric (getMetrics (collector_with 41))) 20))
       = Inr [map sample_datum [0..<20], map sample_datum [20..<40]]"
    by (simp add: chunks built_samples del: upt_rec_numeral)
  have h3: "answers rejecting_after 1
         (map (request (cloudwatchDriver (collector_with 41)))
            [map sample_datum [0..<20], map sample_datum [20..<40]])
       = replicate 1 None @ [Some testError]"
    by (simp add: rejecting_after_def)
  have h4: "\<not> stopped (collector_with 41)"
    by (simp add: collector_with_def running_collector_def)
  from transport_failure_fail_fast [OF h1 h2 h3]
  have "\<forall>collector. cloudwatchDriver collector = cloudwatchDriver (collector_with 41)
          \<and> map as_rawMetric (getMetrics collector)
              = map as_rawMetric (getMetrics (collector_with 41)) \<longrightarrow>
          fst (flush integers rejecting_after 1 collector) = Some (testError\<lparr>logged := True\<rparr>)
          \<and> (\<not> stopped collector \<longrightarrow>
               fst (stop integers rejecting_after 1 collector) = Some (testError\<lparr>logged := True\<rparr>))"
    by blast
  with h4 have fl: "fst (flush integers rejecting_after 1 (collector_with 41)) = Some (testError\<lparr>logged := True\<rparr>)"
    and st: "fst (stop integers rejecting_after 1 (collector_with 41)) = Some (testError\<lparr>logged := True\<rparr>)"
    by blast+
  from h1 h2 h3 h4 sendMetrics_rejecting_after_41 fl st show ?thesis
    by (intro conjI)
qed


section \<open>Entries of a request\<close>

text \<open>
  Claim C1 says that a record whose value sequence has exactly one element gives an entry
  with \<open>Value\<close> and without \<open>StatisticValues\<close>. The driver decides on
  \<open>Array.isArray\<close>, not on the length: the record that the collector holds after one
  observation \<open>eventCount\<close> with value 1 gives \<open>StatisticValues\<close> with a sample count
  of 1, and no \<open>Value\<close>.
\<close>

theorem single_sample_gives_statistics:
  "toMetricDatum integers (as_rawMetric (assign_value (eventCount ''X'' 1)))
   = Inr \<lparr>MetricName = ''eventCount'',
          Dimensions = [\<lparr>Name = ''eventName'', Value = Some ''X''\<rparr>],
          Timestamp = None,
          StatisticValues = Some \<lparr>Maximum = 1, Minimum = 1, SampleCount = 1, Sum = 1\<rparr>,
          DatumValue = None, Unit = None\<rparr>"
  by (simp add: toMetricDatum_def integers_def as_rawMetric_def assign_value_def eventCount_def
      reduce_def Object_keys_def get_prop_def Let_def)

text \<open>
  Claim C1, as amended: for every accumulated record, whose value sequence has
  \<open>k \<ge> 1\<close> elements (\<open>k = 1\<close> included), the entry has no \<open>Value\<close> field and has
  \<open>StatisticValues\<close> with the sample count \<open>k\<close> and, as maximum, minimum and sum, what
  \<open>Math.max\<close>, \<open>Math.min\<close> and \<open>+\<close> give when they are applied from the first element on
  to the elements in their order (for one element, that element): the operations are the
  language's own, whatever the values are, so on doubles the sum is the rounded one. The
  entry has a \<open>Value\<close> field, and no \<open>StatisticValues\<close>, when the raw metric's value is
  not an array.
\<close>

theorem statistics_for_arrays:
  "(val metric = x # xs \<longrightarrow>
      (\<exists>datum. toMetricDatum ops (as_rawMetric metric) = Inr datum
         \<and> DatumValue datum = None
         \<and> StatisticValues datum =
             Some \<lparr>Maximum = foldl (Math_max ops) x xs, Minimum = foldl (Math_min ops) x xs,
                   SampleCount = length (val metric), Sum = foldl (Number_add ops) x xs\<rparr>))
   \<and> (\<exists>datum. toMetricDatum ops (rawMetric\<lparr>val := Scalar v\<rparr>) = Inr datum
         \<and> DatumValue datum = Some v
         \<and> StatisticValues datum = None)"
proof (intro conjI impI)
  assume "val metric = x # xs"
  then show "\<exists>datum. toMetricDatum ops (as_rawMetric metric) = Inr datum
         \<and> DatumValue datum = None
         \<and> StatisticValues datum =
             Some \<lparr>Maximum = foldl (Math_max ops) x xs, Minimum = foldl (Math_min ops) x xs,
                   SampleCount = length (val metric), Sum = foldl (Number_add ops) x xs\<rparr>"
    by (simp add: toMetricDatum_def as_rawMetric_def reduce_def Let_def split: option.split)
next
  show "\<exists>datum. toMetricDatum ops (rawMetric\<lparr>val := Scalar v\<rparr>) = Inr datum
         \<and> DatumValue datum = Some v
         \<and> StatisticValues datum = None"
    by (simp add: toMetricDatum_def Let_def split: option.split)
qed

text \<open>
  A record with the three samples 3, 1 and 2: with the exact operations on integers, and
  with operations that are not exact, a sum that stays at 3 once it has reached it, as a
  sum of doubles stays where the next double is too far; the entry carries what the
  operations give. And a record whose one sample is itself a sequence: the entry carries
  that sequence as maximum, minimum and sum, no operation being applied to one element.
\<close>

theorem statistics_for_arrays_witness:
  "val ((assign_value (eventCount ''X'' (3::int)))\<lparr>val := [3, 1, 2]\<rparr>) = 3 # [1, 2]
   \<and> toMetricDatum integers
        (as_rawMetric ((assign_value (eventCount ''X'' (3::int)))\<lparr>val := [3, 1, 2]\<rparr>))
     = Inr \<lparr>MetricName = ''eventCount'',
            Dimensions = [\<lparr>Name = ''eventName'', Value = Some ''X''\<rparr>],
            Timestamp = None,
            StatisticValues = Some \<lparr>Maximum = 3, Minimum = 1, SampleCount = 3, Sum = 6\<rparr>,
            DatumValue = None, Unit = None\<rparr>
   \<and> toMetricDatum (\<lparr>Math_max = max, Math_min = min,
                     Number_add = (\<lambda>a b. if a = 3 then a else a + b)\<rparr> :: int arithmetic)
        (as_rawMetric ((assign_value (eventCount ''X'' (3::int)))\<lparr>val := [3, 1, 2]\<rparr>))
     = Inr \<lparr>MetricName = ''eventCount'',
            Dimensions = [\<lparr>Name = ''eventName'', Value = Some ''X''\<rparr>],
            Timestamp = None,
            StatisticValues = Some \<lparr>Maximum = 3, Minimum = 1, SampleCount = 3, Sum = 3\<rparr>,
            DatumValue = None, Unit = None\<rparr>
   \<and> val (assign_value (eventCount ''X'' [1, 2::int])) = [1, 2] # []
   \<and> toMetricDatum (\<lparr>Math_max = (\<lambda>a b. []), Math_min = (\<lambda>a b. []),
                     Number_add = (@)\<rparr> :: int list arithmetic)
        (as_rawMetric (assign_value (eventCount ''X'' [1, 2::int])))
     = Inr \<lparr>MetricName = ''eventCount'',
            Dimensions = [\<lparr>Name = ''eventName'', Value = Some ''X''\<rparr>],
            Timestamp = None,
            StatisticValues =
              Some \<lparr>Maximum = [1, 2], Minimum = [1, 2], SampleCount = 1, Sum = [1, 2]\<rparr>,
            DatumValue = None, Unit = None\<rparr>"
  using statistics_for_arrays [where metric = "(assign_value (eventCount ''X'' (3::int)))\<lparr>val := [3, 1, 2]\<rparr>"
      and x = "3::int" and xs = "[1, 2]" and ops = integers]
    statistics_for_arrays [where metric = "(assign_value (eventCount ''X'' (3::int)))\<lparr>val := [3, 1, 2]\<rparr>"
      and x = "3::int" and xs = "[1, 2]"
      and ops = "\<lparr>Math_max = max, Math_min = min,
                   Number_add = (\<lambda>a b. if a = 3 then a else a + b)\<rparr> :: int arithmetic"]
    statistics_for_arrays [where metric = "assign_value (eventCount ''X'' [1, 2::int])"
      and x = "[1, 2::int]" and xs = "[]"
      and ops = "\<lparr>Math_max = (\<lambda>a b. []), Math_min = (\<lambda>a b. []),
                   Number_add = (@)\<rparr> :: int list arithmetic"]
  by (simp add: toMetricDatum_def integers_def as_rawMetric_def assign_value_def eventCount_def
      reduce_def Object_keys_def get_prop_def Let_def)


section \<open>Merging observations\<close>

lemma Map_get_Map_set: "Map_get (Map_set m k v) k = Some v"
  by (induction m) (auto simp: Map_get_def)

lemma Map_set_twice: "Map_set (Map_set m k v) k w = Map_set m k w"
  by (induction m) auto

lemma Map_set_present: "Map_get m k = Some v \<Longrightarrow> Map_set m k v = m"
  by (induction m) (auto simp: Map_get_def split: if_splits)

lemma Map_set_absent: "Map_get m k = None \<Longrightarrow> Map_set m k v = m @ [(k, v)]"
  by (induction m) (auto simp: Map_get_def split: if_splits)

lemma Map_get_None_iff: "Map_get m k = None \<longleftrightarrow> k \<notin> set (map fst m)"
  by (simp add: Map_get_def map_of_eq_None_iff)

lemma keys_Map_set:
  "map fst (Map_set m k v) = (if k \<in> set (map fst m) then map fst m else map fst m @ [k])"
proof (induction m)
  case Nil
  show ?case by simp
next
  case (Cons p m)
  obtain k' v' where p: "p = (k', v')" by (cases p)
  show ?case
  proof (cases "k' = k")
    case True
    with p show ?thesis by simp
  next
    case False
    with p Cons show ?thesis by (cases "k \<in> fst ` set m") simp_all
  qed
qed

lemma Map_set_snoc:
  "k \<notin> set (map fst m) \<Longrightarrow> Map_set (m @ [(k, a)]) k v = m @ [(k, v)]"
  by (induction m) auto

lemma filter_key_absent:
  "k \<notin> set (map fst m) \<Longrightarrow> filter (\<lambda>(k', v). k' = k) m = []"
  by (induction m) auto

lemma Map_get_in_set: "Map_get m k = Some v \<Longrightarrow> (k, v) \<in> set m"
  by (simp add: Map_get_def map_of_SomeD)

lemma list_all_Map_set: "list_all P m \<Longrightarrow> P (k, v) \<Longrightarrow> list_all P (Map_set m k v)"
  by (induction m) auto

lemma getMetricKey_val_update [simp]: "getMetricKey (r\<lparr>val := vs\<rparr>) = getMetricKey r"
  by (simp add: getMetricKey_def split: option.split)

lemma getMetricKey_assign_value [simp]: "getMetricKey (assign_value m) = getMetricKey m"
  by (simp add: getMetricKey_def assign_value_def split: option.split)

lemma addMetric_present:
  assumes "getMetricKey m = Inr k" and "Map_get (metrics this) k = Some r"
  shows "addMetric m this
         = Inr (this\<lparr>metrics := Map_set (metrics this) k (r\<lparr>val := val r @ [val m]\<rparr>)\<rparr>)"
  using assms by (simp add: addMetric_def)

lemma addMetric_absent:
  assumes "getMetricKey m = Inr k" and "Map_get (metrics this) k = None"
  shows "addMetric m this = Inr (this\<lparr>metrics := metrics this @ [(k, assign_value m)]\<rparr>)"
  using assms by (simp add: addMetric_def Map_set_absent)

lemma forEach_same_key:
  assumes "\<forall>x \<in> set ms. getMetricKey x = Inr k" and "Map_get (metrics this) k = Some r"
  shows "forEach_addMetric ms this
         = (None, this\<lparr>metrics := Map_set (metrics this) k (r\<lparr>val := val r @ map val ms\<rparr>)\<rparr>)"
  using assms
proof (induction ms arbitrary: this r)
  case Nil
  then show ?case by (simp add: Map_set_present)
next
  case (Cons m ms)
  let ?r = "r\<lparr>val := val r @ [val m]\<rparr>"
  let ?s0 = "this\<lparr>metrics := Map_set (metrics this) k ?r\<rparr>"
  from Cons.prems have step: "addMetric m this = Inr ?s0" by (simp add: addMetric_present)
  have got: "Map_get (metrics ?s0) k = Some ?r" by (simp add: Map_get_Map_set)
  from Cons.prems have "\<forall>x \<in> set ms. getMetricKey x = Inr k" by simp
  from Cons.IH [OF this got] step show ?case by (simp add: Map_set_twice)
qed

lemma forEach_append:
  "forEach_addMetric (xs @ ys) this = (case forEach_addMetric xs this of
       (Some e, this') \<Rightarrow> (Some e, this')
     | (None, this') \<Rightarrow> forEach_addMetric ys this')"
  by (induction xs arbitrary: this) (auto split: sum.splits)

lemma addMetrics_calls_flat:
  "addMetrics_calls (map Some calls) this = forEach_addMetric (concat (map concat_arg calls)) this"
proof (induction calls arbitrary: this)
  case Nil
  show ?case by simp
next
  case (Cons a calls)
  show ?case
    by (cases "forEach_addMetric (concat_arg a) this")
       (auto simp: addMetrics_def forEach_append Cons.IH split: option.splits)
qed

text \<open>
  Claim C2: take any chain of \<open>addMetrics\<close> calls, each with one metric or a sequence of
  metrics, whose metrics all have the name \<open>n\<close> and dimensions with the values \<open>vs\<close>,
  whatever the dimension names, units and timestamps are, on a collector that holds
  nothing under the key of \<open>n\<close> and \<open>vs\<close>. The chain raises nothing, and afterwards
  \<open>getMetrics\<close> yields the records held before followed by one new record, the only
  one under that key: the first metric with, as its value, the values of all the metrics
  in the order of arrival, as many as there are metrics.
\<close>

theorem same_identity_merges:
  assumes "concat (map concat_arg calls) = m # ms"
    and "\<forall>x \<in> set (m # ms). name x = n \<and> (\<exists>d. dimensions x = Some d \<and> dimensionValues d = vs)"
    and "Map_get (metrics this) (n @ '':'' @ join vs '':'') = None"
  shows "\<exists>this'. addMetrics_calls (map Some calls) this = (None, this')
           \<and> getMetrics this' = getMetrics this @ [(assign_value m)\<lparr>val := map val (m # ms)\<rparr>]
           \<and> filter (\<lambda>(k, metric). k = n @ '':'' @ join vs '':'') (metrics this')
               = [(n @ '':'' @ join vs '':'', (assign_value m)\<lparr>val := map val (m # ms)\<rparr>)]
           \<and> length (val ((assign_value m)\<lparr>val := map val (m # ms)\<rparr>)) = length (m # ms)"
proof -
  define k where "k = n @ '':'' @ join vs '':''"
  define a where "a = assign_value m"
  define rec where "rec = a\<lparr>val := map val (m # ms)\<rparr>"
  let ?s1 = "this\<lparr>metrics := metrics this @ [(k, a)]\<rparr>"
  let ?s2 = "this\<lparr>metrics := metrics this @ [(k, rec)]\<rparr>"
  from assms(2) have keys: "\<forall>x \<in> set (m # ms). getMetricKey x = Inr k"
    by (auto simp: getMetricKey_def k_def)
  from assms(3) have none: "Map_get (metrics this) k = None" by (simp only: k_def)
  then have absent: "k \<notin> set (map fst (metrics this))"
    by (simp add: Map_get_None_iff)
  from keys none have first: "addMetric m this = Inr ?s1"
    by (simp add: addMetric_absent a_def)
  from Map_get_Map_set [of "metrics this" k a] none
  have got: "Map_get (metrics ?s1) k = Some a"
    by (simp add: Map_set_absent)
  from keys have "\<forall>x \<in> set ms. getMetricKey x = Inr k" by simp
  from forEach_same_key [OF this got]
  have rest: "forEach_addMetric ms ?s1
     = (None, ?s1\<lparr>metrics := Map_set (metrics ?s1) k (a\<lparr>val := val a @ map val ms\<rparr>)\<rparr>)" .
  have rec: "a\<lparr>val := val a @ map val ms\<rparr> = rec"
    by (simp add: rec_def a_def assign_value_def)
  have "?s1\<lparr>metrics := Map_set (metrics ?s1) k rec\<rparr> = ?s2"
    using absent by (simp add: Map_set_snoc)
  with rest rec have "forEach_addMetric ms ?s1 = (None, ?s2)" by (simp only:)
  with first have run: "forEach_addMetric (m # ms) this = (None, ?s2)" by simp
  have "filter (\<lambda>(k', metric). k' = k) (metrics this) = []"
    using absent by (rule filter_key_absent)
  with run assms(1) have
    "addMetrics_calls (map Some calls) this = (None, ?s2)
     \<and> getMetrics ?s2 = getMetrics this @ [rec]
     \<and> filter (\<lambda>(k', metric). k' = k) (metrics ?s2) = [(k, rec)]
     \<and> length (val rec) = length (m # ms)"
    by (simp add: addMetrics_calls_flat getMetrics_def Map_values_def rec_def)
  then have "\<exists>this'. addMetrics_calls (map Some calls) this = (None, this')
     \<and> getMetrics this' = getMetrics this @ [rec]
     \<and> filter (\<lambda>(k', metric). k' = k) (metrics this') = [(k, rec)]
     \<and> length (val rec) = length (m # ms)"
    by (rule exI)
  then show ?thesis unfolding k_def rec_def a_def .
qed

text \<open>
  Three metrics \<open>eventCount\<close> with the one dimension value \<open>AttributeEvent\<close>, the second
  under another dimension name and with a unit and a timestamp, added in two calls to the
  collector of the tests: one record, with the values 1, 5 and 9.
\<close>

theorem same_identity_merges_witness:
  "concat (map concat_arg
     [One (eventCount ''AttributeEvent'' 1),
      Many [\<lparr>name = ''eventCount'', dimensions = Some [(''other'', ''AttributeEvent'')],
             val = 5, unit = Some ''Count'', timestamp = Some 7\<rparr>,
            eventCount ''AttributeEvent'' 9]])
   = [eventCount ''AttributeEvent'' (1::int),
      \<lparr>name = ''eventCount'', dimensions = Some [(''other'', ''AttributeEvent'')],
       val = 5, unit = Some ''Count'', timestamp = Some 7\<rparr>,
      eventCount ''AttributeEvent'' 9]
   \<and> Map_get (metrics test_collector) (''eventCount'' @ '':'' @ join [Some ''AttributeEvent''] '':'')
       = None
   \<and> addMetrics_calls (map Some
         [One (eventCount ''AttributeEvent'' 1),
          Many [\<lparr>name = ''eventCount'', dimensions = Some [(''other'', ''AttributeEvent'')],
                 val = 5, unit = Some ''Count'', timestamp = Some 7\<rparr>,
                eventCount ''AttributeEvent'' 9]]) test_collector
       = (None, test_collector\<lparr>metrics :=
            [(''eventCount:AttributeEvent'',
              \<lparr>name = ''eventCount'', dimensions = Some [(''eventName'', ''AttributeEvent'')],
               val = [1, 5, 9], unit = None, timestamp = None\<rparr>)]\<rparr>)"
  using same_identity_merges [of
      "[One (eventCount ''AttributeEvent'' 1),
        Many [\<lparr>name = ''eventCount'', dimensions = Some [(''other'', ''AttributeEvent'')],
               val = 5, unit = Some ''Count'', timestamp = Some 7\<rparr>,
              eventCount ''AttributeEvent'' 9]]"
      "eventCount ''AttributeEvent'' (1::int)"
      "[\<lparr>name = ''eventCount'', dimensions = Some [(''other'', ''AttributeEvent'')],
         val = 5, unit = Some ''Count'', timestamp = Some 7\<rparr>,
        eventCount ''AttributeEvent'' 9]"
      "''eventCount''" "[Some ''AttributeEvent'']" test_collector]
  by (simp add: concat_arg_def addMetrics_def addMetric_def getMetricKey_def dimensionValues_def
      get_prop_def Object_keys_def js_str_def Map_get_def assign_value_def eventCount_def
      test_collector_def)


section \<open>Order of the accumulated records\<close>

lemma addMetric_keys:
  assumes "addMetric m this = Inr this'"
  shows "\<exists>k. getMetricKey m = Inr k
           \<and> map fst (metrics this')
               = (if k \<in> set (map fst (metrics this)) then map fst (metrics this)
                  else map fst (metrics this) @ [k])"
proof -
  from assms obtain k where k: "getMetricKey m = Inr k"
    by (auto simp: addMetric_def split: sum.splits)
  with assms obtain v where "this' = this\<lparr>metrics := Map_set (metrics this) k v\<rparr>"
    by (cases "Map_get (metrics this) k") (auto simp: addMetric_def)
  then have "map fst (metrics this')
               = (if k \<in> set (map fst (metrics this)) then map fst (metrics this)
                  else map fst (metrics this) @ [k])"
    by (simp add: keys_Map_set)
  with k show ?thesis by blast
qed

lemma addMetric_well_formed:
  assumes "well_formed this" and "addMetric m this = Inr this'"
  shows "well_formed this'"
proof -
  from assms(2) obtain k where k: "getMetricKey m = Inr k"
    by (auto simp: addMetric_def split: sum.splits)
  let ?P = "\<lambda>(k, metric). getMetricKey metric = Inr k"
  from assms(1) have d: "distinct (map fst (metrics this))" and all: "list_all ?P (metrics this)"
    by (simp_all add: well_formed_def)
  show ?thesis
  proof (cases "Map_get (metrics this) k")
    case None
    with k assms(2) have this': "this' = this\<lparr>metrics := Map_set (metrics this) k (assign_value m)\<rparr>"
      by (simp add: addMetric_def)
    from None have "k \<notin> set (map fst (metrics this))" by (simp add: Map_get_None_iff)
    with d have "distinct (map fst (Map_set (metrics this) k (assign_value m)))"
      by (simp add: keys_Map_set)
    moreover from all k have "list_all ?P (Map_set (metrics this) k (assign_value m))"
      by (intro list_all_Map_set) simp_all
    ultimately show ?thesis by (simp add: well_formed_def this')
  next
    case (Some r)
    with k assms(2) have this':
      "this' = this\<lparr>metrics := Map_set (metrics this) k (r\<lparr>val := val r @ [val m]\<rparr>)\<rparr>"
      by (simp add: addMetric_def)
    from Some have "(k, r) \<in> set (metrics this)" by (rule Map_get_in_set)
    with all have r: "getMetricKey r = Inr k" by (auto simp: list_all_iff)
    from Some have "k \<in> set (map fst (metrics this))"
      using Map_get_None_iff [of "metrics this" k] by simp
    with d have "distinct (map fst (Map_set (metrics this) k (r\<lparr>val := val r @ [val m]\<rparr>)))"
      by (simp add: keys_Map_set)
    moreover from all r have "list_all ?P (Map_set (metrics this) k (r\<lparr>val := val r @ [val m]\<rparr>))"
      by (intro list_all_Map_set) simp_all
    ultimately show ?thesis by (simp add: well_formed_def this')
  qed
qed

lemma forEach_well_formed:
  "well_formed this \<Longrightarrow> forEach_addMetric ms this = (None, this') \<Longrightarrow> well_formed this'"
proof (induction ms arbitrary: this)
  case Nil
  then show ?case by simp
next
  case (Cons m ms)
  then show ?case
    by (cases "addMetric m this") (auto dest: addMetric_well_formed)
qed

lemma first_occurrences_step_seen:
  "x \<in> set K \<Longrightarrow>
   K @ first_occurrences (filter (\<lambda>y. y \<notin> set K) (x # G))
   = K @ first_occurrences (filter (\<lambda>y. y \<notin> set K) G)"
  by simp

lemma first_occurrences_step_new:
  assumes "x \<notin> set K"
  shows "K @ first_occurrences (filter (\<lambda>y. y \<notin> set K) (x # G))
         = (K @ [x]) @ first_occurrences (filter (\<lambda>y. y \<notin> set (K @ [x])) G)"
proof -
  have "filter (\<lambda>y. y \<noteq> x) (filter (\<lambda>y. y \<notin> set K) G)
        = filter (\<lambda>y. y \<notin> set (K @ [x])) G"
    by (induction G) auto
  with assms show ?thesis by simp
qed

lemma forEach_keys:
  assumes "forEach_addMetric ms this = (None, this')"
  shows "map Inr (map fst (metrics this'))
         = map Inr (map fst (metrics this))
           @ first_occurrences
               (filter (\<lambda>k. k \<notin> set (map Inr (map fst (metrics this)))) (map getMetricKey ms))"
  using assms
proof (induction ms arbitrary: this)
  case Nil
  then show ?case by simp
next
  case (Cons m ms)
  from Cons.prems obtain s1 where step: "addMetric m this = Inr s1"
    and rest: "forEach_addMetric ms s1 = (None, this')"
    by (cases "addMetric m this") auto
  from addMetric_keys [OF step] obtain k where k: "getMetricKey m = Inr k"
    and keys: "map fst (metrics s1)
               = (if k \<in> set (map fst (metrics this)) then map fst (metrics this)
                  else map fst (metrics this) @ [k])"
    by blast
  define K :: "(jserror + string) list" where "K = map Inr (map fst (metrics this))"
  define G where "G = map getMetricKey ms"
  from keys have K1: "map Inr (map fst (metrics s1)) = (if Inr k \<in> set K then K else K @ [Inr k])"
    by (auto simp: K_def)
  from Cons.IH [OF rest]
  have IH: "map Inr (map fst (metrics this'))
            = (if Inr k \<in> set K then K else K @ [Inr k])
              @ first_occurrences
                  (filter (\<lambda>y. y \<notin> set (if Inr k \<in> set K then K else K @ [Inr k])) G)"
    by (simp only: K1 G_def)
  have goal: "map Inr (map fst (metrics this'))
              = K @ first_occurrences (filter (\<lambda>y. y \<notin> set K) (Inr k # G))"
  proof (cases "Inr k \<in> set K")
    case True
    with IH first_occurrences_step_seen [OF True, of G] show ?thesis by (simp only: if_True)
  next
    case False
    with IH first_occurrences_step_new [OF False, of G] show ?thesis by (simp only: if_False)
  qed
  then show ?case by (simp only: K_def G_def list.map k)
qed

lemma well_formed_keys:
  "well_formed this \<Longrightarrow> map getMetricKey (getMetrics this) = map Inr (map fst (metrics this))"
  by (auto simp: well_formed_def getMetrics_def Map_values_def list_all_iff)

text \<open>
  Claim C10: when \<open>addMetrics\<close> succeeds on a well-formed collector, the collector stays
  well formed, and the keys of the records that \<open>getMetrics\<close> returns are the keys of
  the records returned before, at the places they had, followed by the keys that were not
  yet present, in the order in which the call's metrics first bring them: a metric merged
  into an existing record moves no record.
\<close>

theorem getMetrics_in_first_insertion_order:
  assumes "well_formed this" and "addMetrics (Some a) this = (None, this')"
  shows "well_formed this'
         \<and> map getMetricKey (getMetrics this')
             = map getMetricKey (getMetrics this)
               @ first_occurrences
                   (filter (\<lambda>k. k \<notin> set (map getMetricKey (getMetrics this)))
                      (map getMetricKey (concat_arg a)))"
proof -
  from assms(2) have run: "forEach_addMetric (concat_arg a) this = (None, this')"
    by (simp add: addMetrics_def)
  from forEach_well_formed [OF assms(1) run] have wf: "well_formed this'" .
  from forEach_keys [OF run] well_formed_keys [OF assms(1)] well_formed_keys [OF wf] wf
  show ?thesis by (simp only:)
qed

lemma collector_with_2:
  "collector_with 2 = running_collector\<lparr>metrics :=
      [(''eventCount:'', assign_value (eventCount [] 0)),
       (''eventCount:x'', assign_value (eventCount ''x'' 1))]\<rparr>"
  by (simp add: collector_with_def sample_def numeral_2_eq_2)

text \<open>
  A collector that holds two records; of the three metrics added, the second is merged
  into the second record, the first and the third make one new record, which comes last.
\<close>

theorem getMetrics_in_first_insertion_order_witness:
  "well_formed (collector_with 2)
   \<and> addMetrics (Some (Many [eventCount ''xx'' 7, eventCount ''x'' 8, eventCount ''xx'' 9]))
         (collector_with 2)
       = (None, running_collector\<lparr>metrics :=
            [(''eventCount:'', assign_value (eventCount [] 0)),
             (''eventCount:x'', (assign_value (eventCount ''x'' 1))\<lparr>val := [1, 8]\<rparr>),
             (''eventCount:xx'', (assign_value (eventCount ''xx'' 7))\<lparr>val := [7, 9]\<rparr>)]\<rparr>)
   \<and> map getMetricKey (getMetrics (running_collector\<lparr>metrics :=
            [(''eventCount:'', assign_value (eventCount [] 0)),
             (''eventCount:x'', (assign_value (eventCount ''x'' 1))\<lparr>val := [1, 8]\<rparr>),
             (''eventCount:xx'', (assign_value (eventCount ''xx'' 7))\<lparr>val := [7, 9]\<rparr>)]\<rparr>))
       = [Inr ''eventCount:'', Inr ''eventCount:x'', Inr ''eventCount:xx'']"
  using getMetrics_in_first_insertion_order [of "collector_with 2"
      "Many [eventCount ''xx'' 7, eventCount ''x'' 8, eventCount ''xx'' 9]"
      "running_collector\<lparr>metrics :=
            [(''eventCount:'', assign_value (eventCount [] 0)),
             (''eventCount:x'', (assign_value (eventCount ''x'' 1))\<lparr>val := [1, 8]\<rparr>),
             (''eventCount:xx'', (assign_value (eventCount ''xx'' 7))\<lparr>val := [7, 9]\<rparr>)]\<rparr>"]
  by (simp add: collector_with_2 well_formed_def concat_arg_def addMetrics_def addMetric_def
      getMetricKey_def dimensionValues_def get_prop_def Object_keys_def js_str_def Map_get_def
      assign_value_def eventCount_def getMetrics_def Map_values_def running_collector_def)

end
